theory Spec2Isabelle
  imports Main
begin

section \<open>Strings of the JavaScript runtime\<close>

text \<open>
  A JavaScript string is a sequence of UTF-16 code units. The section titles of the
  weekly report are Chinese, so a code unit is a natural number and a string a list of
  them; ASCII literals are written with \<open>asc\<close>.
\<close>

type_synonym jstring = "nat list"

definition asc :: "string \<Rightarrow> jstring" where
  "asc s = map of_char s"

text \<open>White space as \<open>\s\<close> and \<open>String.prototype.trim\<close> see it (ECMAScript WhiteSpace and
  LineTerminator), and the line terminators that \<open>.\<close> refuses.\<close>

definition is_space :: "nat \<Rightarrow> bool" where
  "is_space c = (c = 9 \<or> c = 10 \<or> c = 11 \<or> c = 12 \<or> c = 13 \<or> c = 32 \<or> c = 0xA0
     \<or> c = 0x1680 \<or> (0x2000 \<le> c \<and> c \<le> 0x200A) \<or> c = 0x2028 \<or> c = 0x2029
     \<or> c = 0x202F \<or> c = 0x205F \<or> c = 0x3000 \<or> c = 0xFEFF)"

definition is_line_terminator :: "nat \<Rightarrow> bool" where
  "is_line_terminator c = (c = 10 \<or> c = 13 \<or> c = 0x2028 \<or> c = 0x2029)"

definition not_terminator :: "nat \<Rightarrow> bool" where
  "not_terminator c = (\<not> is_line_terminator c)"

definition trim :: "jstring \<Rightarrow> jstring" where
  "trim s = rev (dropWhile is_space (rev (dropWhile is_space s)))"

text \<open>\<open>s.split('\n')\<close> and \<open>lines.join('\n')\<close>.\<close>

fun split_nl :: "jstring \<Rightarrow> jstring list" where
  "split_nl [] = [[]]"
| "split_nl (c # cs) =
     (if c = 10 then [] # split_nl cs
      else (case split_nl cs of [] \<Rightarrow> [[c]] | l # ls \<Rightarrow> (c # l) # ls))"

fun join_nl :: "jstring list \<Rightarrow> jstring" where
  "join_nl [] = []"
| "join_nl [l] = l"
| "join_nl (l # m # ls) = l @ 10 # join_nl (m # ls)"

text \<open>\<open>s.includes(t)\<close>, \<open>s.startsWith(t)\<close> and \<open>s.endsWith(t)\<close>.\<close>

fun starts_with :: "jstring \<Rightarrow> jstring \<Rightarrow> bool" where
  "starts_with s [] = True"
| "starts_with [] (p # ps) = False"
| "starts_with (c # cs) (p # ps) = (c = p \<and> starts_with cs ps)"

fun includes_str :: "jstring \<Rightarrow> jstring \<Rightarrow> bool" where
  "includes_str [] t = (t = [])"
| "includes_str (c # cs) t = (starts_with (c # cs) t \<or> includes_str cs t)"

definition ends_with :: "jstring \<Rightarrow> jstring \<Rightarrow> bool" where
  "ends_with s t = starts_with (rev s) (rev t)"

section \<open>The regular expressions of the aggregator\<close>

text \<open>
  Each quantifier of the source's regular expressions is a backtracking matcher in
  continuation style: it tries the greedy alternative first and falls back to the
  shorter one when the rest of the pattern (the continuation) fails.
\<close>

fun hash_plus :: "(jstring \<Rightarrow> 'a option) \<Rightarrow> jstring \<Rightarrow> 'a option" where
  "hash_plus k [] = None"
| "hash_plus k (c # cs) =
     (if c = 35
      then (case hash_plus k cs of Some r \<Rightarrow> Some r | None \<Rightarrow> k cs)
      else None)"

fun ws_star :: "(jstring \<Rightarrow> 'a option) \<Rightarrow> jstring \<Rightarrow> 'a option" where
  "ws_star k [] = k []"
| "ws_star k (c # cs) =
     (if is_space c
      then (case ws_star k cs of Some r \<Rightarrow> Some r | None \<Rightarrow> k (c # cs))
      else k (c # cs))"

fun ws_plus :: "(jstring \<Rightarrow> 'a option) \<Rightarrow> jstring \<Rightarrow> 'a option" where
  "ws_plus k [] = None"
| "ws_plus k (c # cs) = (if is_space c then ws_star k cs else None)"

fun opt :: "(nat \<Rightarrow> bool) \<Rightarrow> (jstring \<Rightarrow> 'a option) \<Rightarrow> jstring \<Rightarrow> 'a option" where
  "opt P k [] = k []"
| "opt P k (c # cs) =
     (if P c
      then (case k cs of Some r \<Rightarrow> Some r | None \<Rightarrow> k (c # cs))
      else k (c # cs))"

text \<open>The escaped section title, matched literally under the \<open>i\<close> flag: two code units
  match when the runtime's Canonicalize maps them to the same code unit.\<close>

fun literal_ci :: "(nat \<Rightarrow> nat) \<Rightarrow> jstring \<Rightarrow> jstring \<Rightarrow> unit option" where
  "literal_ci cf [] s = Some ()"
| "literal_ci cf (p # ps) [] = None"
| "literal_ci cf (p # ps) (c # cs) = (if cf c = cf p then literal_ci cf ps cs else None)"

text \<open>A final \<open>(.+)\<close>: the longest run of characters that are not line terminators.\<close>

definition dot_plus_capture :: "jstring \<Rightarrow> jstring option" where
  "dot_plus_capture s =
     (let cap = takeWhile not_terminator s in if cap = [] then None else Some cap)"

text \<open>A final \<open>.+$\<close> under the \<open>m\<close> flag; the result is the text after the match.\<close>

definition dot_plus_eol :: "jstring \<Rightarrow> jstring option" where
  "dot_plus_eol s =
     (if takeWhile not_terminator s = [] then None else Some (dropWhile not_terminator s))"

definition accept :: "jstring \<Rightarrow> unit option" where
  "accept s = Some ()"

text \<open>\<open>/^#+\s+/\<close> on one line.\<close>

definition heading_line :: "jstring \<Rightarrow> bool" where
  "heading_line l = (hash_plus (ws_plus accept) l \<noteq> None)"

text \<open>\<open>new RegExp(`^#+\\s*${escapeRegex(sectionTitle)}`, 'i')\<close> on one line.\<close>

definition opens_section :: "(nat \<Rightarrow> nat) \<Rightarrow> jstring \<Rightarrow> jstring \<Rightarrow> bool" where
  "opens_section cf sectionTitle l = (hash_plus (ws_star (literal_ci cf sectionTitle)) l \<noteq> None)"

text \<open>\<open>/^#+\s+.+$/gm\<close> tried at the start of a line; the result is the text after the match.\<close>

definition heading_match :: "jstring \<Rightarrow> jstring option" where
  "heading_match s = hash_plus (ws_plus dot_plus_eol) s"

text \<open>\<open>/^[-*]\s+\[?[xX ]?\]?\s*(.+)/\<close> on one line; the result is capture group 1.\<close>

definition list_item_match :: "jstring \<Rightarrow> jstring option" where
  "list_item_match l =
     (case l of
        [] \<Rightarrow> None
      | c # cs \<Rightarrow>
          if c = 45 \<or> c = 42
          then ws_plus (opt (\<lambda>d. d = 91)
                 (opt (\<lambda>d. d = 120 \<or> d = 88 \<or> d = 32)
                   (opt (\<lambda>d. d = 93) (ws_star dot_plus_capture)))) cs
          else None)"


section \<open>The runtime tables the code relies on\<close>

text \<open>
  Two tables of the JavaScript runtime are parameters of the model: the case folding
  (Canonicalize) that the \<open>i\<close> flag applies to each code unit, and the collation behind
  \<open>String.prototype.localeCompare\<close>.
\<close>

record runtime =
  canonicalize :: "nat \<Rightarrow> nat"
  localeCompare :: "jstring \<Rightarrow> jstring \<Rightarrow> int"

section \<open>Data model (core/schema.ts, core/aggregator.ts)\<close>

text \<open>Field names carry the initials of their interface, since several interfaces of the
  source share the names \<open>date\<close>, \<open>projects\<close>, \<open>meta\<close> and \<open>content\<close>. The literal-typed
  field \<open>type: 'daily'\<close> holds one value only and is left out of \<open>DailyMeta\<close>.\<close>

record GitHubLink =
  gl_issues :: "jstring list"
  gl_prs :: "jstring list"

record DailyMeta =
  dm_date :: jstring
  dm_week :: jstring
  dm_projects :: "jstring list"
  dm_tags :: "jstring list"
  dm_weekly_highlight :: bool
  dm_github :: GitHubLink

record DailyLog =
  dl_meta :: DailyMeta
  dl_content :: jstring
  dl_filePath :: jstring

record WeeklyMeta =
  wm_week :: jstring
  wm_type :: jstring
  wm_start_date :: jstring
  wm_end_date :: jstring
  wm_projects :: "jstring list"

record WeeklyReport =
  wr_meta :: WeeklyMeta
  wr_content :: jstring
  wr_filePath :: jstring

record HighlightEntry =
  he_date :: jstring
  he_content :: jstring

record DailySummary =
  ds_date :: jstring
  ds_projects :: "jstring list"
  ds_tags :: "jstring list"
  ds_isHighlight :: bool
  ds_excerpt :: jstring

record WeeklyAggregation =
  wa_meta :: WeeklyMeta
  wa_content :: jstring
  wa_projects :: "jstring list"
  wa_highlights :: "HighlightEntry list"
  wa_dailySummaries :: "DailySummary list"

section \<open>Content extraction\<close>

text \<open>The loop of \<open>extractSection\<close>: the flag \<open>inSection\<close> is threaded through, the result
  is \<open>sectionLines\<close>, and \<open>break\<close> ends the recursion.\<close>

fun extract_loop :: "(nat \<Rightarrow> nat) \<Rightarrow> jstring \<Rightarrow> bool \<Rightarrow> jstring list \<Rightarrow> jstring list" where
  "extract_loop cf sectionTitle inSection [] = []"
| "extract_loop cf sectionTitle inSection (line # rest) =
     (if opens_section cf sectionTitle line then extract_loop cf sectionTitle True rest
      else if inSection \<and> heading_line line then []
      else if inSection then line # extract_loop cf sectionTitle inSection rest
      else extract_loop cf sectionTitle inSection rest)"

definition extractSection :: "runtime \<Rightarrow> jstring \<Rightarrow> jstring \<Rightarrow> jstring" where
  "extractSection rt content sectionTitle =
     trim (join_nl (extract_loop (canonicalize rt) sectionTitle False (split_nl content)))"

text \<open>The loop of \<open>extractListItems\<close>: an item is pushed when the line matches and the
  trimmed capture is not empty.\<close>

fun items_loop :: "jstring list \<Rightarrow> jstring list" where
  "items_loop [] = []"
| "items_loop (line # rest) =
     (case list_item_match line of
        None \<Rightarrow> items_loop rest
      | Some m \<Rightarrow> if trim m \<noteq> [] then trim m # items_loop rest else items_loop rest)"

definition extractListItems :: "runtime \<Rightarrow> jstring \<Rightarrow> jstring \<Rightarrow> jstring list" where
  "extractListItems rt content sectionTitle =
     items_loop (split_nl (extractSection rt content sectionTitle))"

definition title_completed :: jstring where
  "title_completed = [0x4ECA, 0x65E5, 0x5B8C, 0x6210]"

definition title_progress :: jstring where
  "title_progress = [0x9879, 0x76EE, 0x8FDB, 0x5C55]"

definition extractHighlightContent :: "runtime \<Rightarrow> DailyLog \<Rightarrow> jstring" where
  "extractHighlightContent rt daily =
     (let completed = extractSection rt (dl_content daily) title_completed in
      if completed \<noteq> [] then completed
      else let progress = extractSection rt (dl_content daily) title_progress in
        if progress \<noteq> [] then progress
        else take 500 (dl_content daily))"


section \<open>Excerpts\<close>

text \<open>\<open>content.replace(/^#+\s+.+$/gm, '')\<close>: the scan tries the pattern where a line
  starts (\<open>bol\<close>), drops a match and resumes after it, and copies one code unit otherwise.\<close>

lemma ws_star_shorter:
  assumes "\<And>s r. k s = Some r \<Longrightarrow> length r \<le> length s"
  shows "ws_star k s = Some r \<Longrightarrow> length r \<le> length s"
proof (induction s)
  case Nil
  then show ?case using assms [of "[]" r] by simp
next
  case (Cons c cs)
  then show ?case using assms [of "c # cs" r]
    by (auto split: if_splits option.splits)
qed

lemma ws_plus_shorter:
  assumes "\<And>s r. k s = Some r \<Longrightarrow> length r \<le> length s"
  shows "ws_plus k s = Some r \<Longrightarrow> length r < length s"
  using ws_star_shorter [of k, OF assms]
  by (cases s) (auto split: if_splits simp: less_Suc_eq_le)

lemma hash_plus_shorter:
  assumes "\<And>s r. k s = Some r \<Longrightarrow> length r \<le> length s"
  shows "hash_plus k s = Some r \<Longrightarrow> length r < length s"
proof (induction s)
  case Nil
  then show ?case by simp
next
  case (Cons c cs)
  then show ?case using assms [of cs r]
    by (auto split: if_splits option.splits simp: less_Suc_eq_le)
qed

lemma dot_plus_eol_shorter: "dot_plus_eol s = Some r \<Longrightarrow> length r \<le> length s"
  by (auto simp: dot_plus_eol_def length_dropWhile_le split: if_splits)

lemma heading_match_shorter: "heading_match s = Some r \<Longrightarrow> length r < length s"
  unfolding heading_match_def
  by (rule hash_plus_shorter [where k = "ws_plus dot_plus_eol"])
     (auto dest!: ws_plus_shorter [where k = dot_plus_eol, rotated] dest: dot_plus_eol_shorter)

function strip_headings :: "bool \<Rightarrow> jstring \<Rightarrow> jstring" where
  "strip_headings bol [] = []"
| "strip_headings bol (c # cs) =
     (case (if bol then heading_match (c # cs) else None) of
        Some rest \<Rightarrow> strip_headings False rest
      | None \<Rightarrow> c # strip_headings (is_line_terminator c) cs)"
  by pat_completeness auto
termination
  by (relation "measure (\<lambda>(bol, s). length s)")
     (auto split: if_splits dest: heading_match_shorter)

text \<open>\<open>.replace(/\n{3,}/g, '\n\n')\<close>: a run of three or more newlines becomes two.\<close>

function collapse_newlines :: "jstring \<Rightarrow> jstring" where
  "collapse_newlines [] = []"
| "collapse_newlines (c # cs) =
     (if c = 10
      then (let run = takeWhile (\<lambda>d. d = 10) cs; rest = dropWhile (\<lambda>d. d = 10) cs in
            (if 2 \<le> length run then [10, 10] else 10 # run) @ collapse_newlines rest)
      else c # collapse_newlines cs)"
  by pat_completeness auto
termination
  by (relation "measure length") (auto simp: less_Suc_eq_le length_dropWhile_le)

definition excerpt_cleaned :: "jstring \<Rightarrow> jstring" where
  "excerpt_cleaned content = trim (collapse_newlines (strip_headings True content))"

text \<open>\<open>maxLength\<close> is a JavaScript number; the model takes an integer, and
  \<open>substring(0, maxLength)\<close> clamps a negative bound to 0.\<close>

definition generateExcerpt :: "jstring \<Rightarrow> int \<Rightarrow> jstring" where
  "generateExcerpt content maxLength =
     (let cleaned = excerpt_cleaned content in
      if int (length cleaned) \<le> maxLength then cleaned
      else trim (take (nat maxLength) cleaned) @ asc ''...'')"

section \<open>Aggregation\<close>

definition createDailySummary :: "DailyLog \<Rightarrow> DailySummary" where
  "createDailySummary daily =
     \<lparr> ds_date = dm_date (dl_meta daily),
       ds_projects = dm_projects (dl_meta daily),
       ds_tags = dm_tags (dl_meta daily),
       ds_isHighlight = dm_weekly_highlight (dl_meta daily),
       ds_excerpt = generateExcerpt (dl_content daily) 200 \<rparr>"

text \<open>\<open>Array.prototype.sort\<close> with a comparator is a stable sort.\<close>

fun sort_insert :: "('a \<Rightarrow> 'a \<Rightarrow> int) \<Rightarrow> 'a \<Rightarrow> 'a list \<Rightarrow> 'a list" where
  "sort_insert cmp x [] = [x]"
| "sort_insert cmp x (y # ys) =
     (if cmp x y \<le> 0 then x # y # ys else y # sort_insert cmp x ys)"

definition array_sort :: "('a \<Rightarrow> 'a \<Rightarrow> int) \<Rightarrow> 'a list \<Rightarrow> 'a list" where
  "array_sort cmp xs = foldr (sort_insert cmp) xs []"

definition compareDailies :: "runtime \<Rightarrow> DailyLog \<Rightarrow> DailyLog \<Rightarrow> int" where
  "compareDailies rt a b = localeCompare rt (dm_date (dl_meta a)) (dm_date (dl_meta b))"

text \<open>\<open>Set.prototype.add\<close> on a set that keeps insertion order.\<close>

definition set_add :: "jstring list \<Rightarrow> jstring \<Rightarrow> jstring list" where
  "set_add s x = (if x \<in> set s then s else s @ [x])"

definition collectProjects :: "DailyLog list \<Rightarrow> jstring list" where
  "collectProjects sortedDailies =
     foldl (\<lambda>projectSet daily. foldl set_add projectSet (dm_projects (dl_meta daily))) [] sortedDailies"

text \<open>The literal lines of the weekly report.\<close>

definition heading_summary :: jstring where
  "heading_summary = asc ''## '' @ [0x672C, 0x5468, 0x603B, 0x7ED3, 0xFF08, 0x4E00, 0x53E5, 0x8BDD, 0xFF09]"

definition heading_highlights :: jstring where
  "heading_highlights =
     asc ''## '' @ [0x672C, 0x5468, 0x91CD, 0x70B9, 0x4EA7, 0x51FA, 0xFF08] @ asc ''Highlights'' @ [0xFF09]"

definition heading_projects :: jstring where
  "heading_projects = asc ''## '' @ [0x9879, 0x76EE, 0x8FDB, 0x5C55]"

definition heading_dailies :: jstring where
  "heading_dailies = asc ''## '' @ [0x6BCF, 0x65E5, 0x5DE5, 0x4F5C, 0x6458, 0x8981]"

definition heading_risks :: jstring where
  "heading_risks = asc ''## '' @ [0x98CE, 0x9669, 0x4E0E, 0x963B, 0x585E]"

definition heading_plan :: jstring where
  "heading_plan = asc ''## '' @ [0x4E0B, 0x5468, 0x8BA1, 0x5212]"

definition no_highlights :: jstring where
  "no_highlights = asc ''*'' @ [0x672C, 0x5468, 0x6682, 0x65E0, 0x6807, 0x8BB0, 0x4E3A]
     @ asc '' highlight '' @ [0x7684, 0x65E5, 0x5FD7] @ asc ''*''"

definition no_projects :: jstring where
  "no_projects = asc ''*'' @ [0x672C, 0x5468, 0x6682, 0x65E0, 0x5173, 0x8054, 0x9879, 0x76EE] @ asc ''*''"

definition no_dailies :: jstring where
  "no_dailies = asc ''*'' @ [0x672C, 0x5468, 0x6682, 0x65E0] @ asc '' Daily Log*''"

definition no_content :: jstring where
  "no_content = asc ''*'' @ [0x65E0, 0x5185, 0x5BB9] @ asc ''*''"

definition highlight_lines :: "HighlightEntry \<Rightarrow> jstring list" where
  "highlight_lines highlight = [asc ''### '' @ he_date highlight, [], he_content highlight, []]"

definition project_lines :: "jstring \<Rightarrow> jstring list" where
  "project_lines project =
     [asc ''### '' @ project,
      asc ''- '' @ [0x672C, 0x5468, 0x8FDB, 0x5C55, 0xFF1A],
      asc ''- '' @ [0x5F53, 0x524D, 0x72B6, 0x6001, 0xFF1A],
      asc ''- '' @ [0x4E0B, 0x5468, 0x8BA1, 0x5212, 0xFF1A],
      []]"

text \<open>\<open>summary.projects.join(', ')\<close>.\<close>

fun join_comma :: "jstring list \<Rightarrow> jstring" where
  "join_comma [] = []"
| "join_comma [l] = l"
| "join_comma (l # m # ls) = l @ asc '', '' @ join_comma (m # ls)"

definition summary_lines :: "DailySummary \<Rightarrow> jstring list" where
  "summary_lines summary =
     (let highlightMark = (if ds_isHighlight summary then [32, 0x2B50] else []);
          projectsInfo = (if 0 < length (ds_projects summary)
                          then asc '' ['' @ join_comma (ds_projects summary) @ asc '']''
                          else [])
      in [asc ''### '' @ ds_date summary @ highlightMark @ projectsInfo,
          [],
          (if ds_excerpt summary \<noteq> [] then ds_excerpt summary else no_content),
          []])"

definition generateWeeklyContent ::
  "WeeklyMeta \<Rightarrow> jstring list \<Rightarrow> HighlightEntry list \<Rightarrow> DailySummary list \<Rightarrow> jstring" where
  "generateWeeklyContent weekMeta projects highlights dailySummaries =
     join_nl
       ([asc ''# Week '' @ wm_week weekMeta @ [32, 0x5DE5, 0x4F5C, 0x5468, 0x62A5], [],
         heading_summary, [], [],
         heading_highlights, []]
        @ (if 0 < length highlights then concat (map highlight_lines highlights)
           else [no_highlights, []])
        @ [heading_projects, []]
        @ (if 0 < length projects then concat (map project_lines projects)
           else [no_projects, []])
        @ [heading_dailies, []]
        @ (if 0 < length dailySummaries then concat (map summary_lines dailySummaries)
           else [no_dailies, []])
        @ [heading_risks, asc ''-'', [],
           heading_plan, asc ''-'', []])"

text \<open>The body of \<open>aggregateDailiesToWeekly\<close> after the sort.\<close>

definition aggregateSorted :: "runtime \<Rightarrow> DailyLog list \<Rightarrow> WeeklyMeta \<Rightarrow> WeeklyAggregation" where
  "aggregateSorted rt sortedDailies weekMeta =
     (let projects = collectProjects sortedDailies;
          highlights = map (\<lambda>d. \<lparr> he_date = dm_date (dl_meta d),
                                    he_content = extractHighlightContent rt d \<rparr>)
                         (filter (\<lambda>d. dm_weekly_highlight (dl_meta d)) sortedDailies);
          dailySummaries = map createDailySummary sortedDailies;
          content = generateWeeklyContent weekMeta projects highlights dailySummaries
      in \<lparr> wa_meta = weekMeta \<lparr> wm_projects := projects \<rparr>,
           wa_content = content,
           wa_projects = projects,
           wa_highlights = highlights,
           wa_dailySummaries = dailySummaries \<rparr>)"

definition aggregateDailiesToWeekly :: "runtime \<Rightarrow> DailyLog list \<Rightarrow> WeeklyMeta \<Rightarrow> WeeklyAggregation" where
  "aggregateDailiesToWeekly rt dailies weekMeta =
     (let sortedDailies = array_sort (compareDailies rt) dailies
      in aggregateSorted rt sortedDailies weekMeta)"

text \<open>
  The same function with its arrays in a store. \<open>[...dailies]\<close> allocates a new array
  holding the elements of the caller's array, and \<open>sort\<close> reorders the array it is called
  on in place. A store is a list of arrays and an array reference is an index into it.
\<close>

type_synonym store = "DailyLog list list"

definition array_spread :: "store \<Rightarrow> nat \<Rightarrow> store \<times> nat" where
  "array_spread st a = (st @ [st ! a], length st)"

definition array_sort_in_place :: "(DailyLog \<Rightarrow> DailyLog \<Rightarrow> int) \<Rightarrow> store \<Rightarrow> nat \<Rightarrow> store" where
  "array_sort_in_place cmp st a = st [a := array_sort cmp (st ! a)]"

definition aggregateDailiesToWeekly_store ::
  "runtime \<Rightarrow> store \<Rightarrow> nat \<Rightarrow> WeeklyMeta \<Rightarrow> store \<times> WeeklyAggregation" where
  "aggregateDailiesToWeekly_store rt st dailies weekMeta =
     (let (st1, copy) = array_spread st dailies;
          st2 = array_sort_in_place (compareDailies rt) st1 copy;
          sortedDailies = copy
      in (st2, aggregateSorted rt (st2 ! sortedDailies) weekMeta))"

section \<open>Merging a regenerated report into an edited one\<close>

text \<open>The loop of \<open>replaceSection\<close>; the result is the array \<open>result\<close>.\<close>

fun replace_loop :: "(nat \<Rightarrow> nat) \<Rightarrow> jstring \<Rightarrow> jstring \<Rightarrow> bool \<Rightarrow> jstring list \<Rightarrow> jstring list" where
  "replace_loop cf sectionTitle newSectionContent inSection [] = []"
| "replace_loop cf sectionTitle newSectionContent inSection (line # rest) =
     (if opens_section cf sectionTitle line
      then line # [] # newSectionContent # replace_loop cf sectionTitle newSectionContent True rest
      else let inSection' = (if inSection \<and> heading_line line then False else inSection) in
        if inSection' then replace_loop cf sectionTitle newSectionContent inSection' rest
        else line # replace_loop cf sectionTitle newSectionContent inSection' rest)"

definition replaceSection :: "runtime \<Rightarrow> jstring \<Rightarrow> jstring \<Rightarrow> jstring \<Rightarrow> jstring" where
  "replaceSection rt content sectionTitle newSectionContent =
     join_nl (replace_loop (canonicalize rt) sectionTitle newSectionContent False (split_nl content))"

definition title_summary :: jstring where
  "title_summary = [0x672C, 0x5468, 0x603B, 0x7ED3]"

definition title_summary_full :: jstring where
  "title_summary_full = [0x672C, 0x5468, 0x603B, 0x7ED3, 0xFF08, 0x4E00, 0x53E5, 0x8BDD, 0xFF09]"

definition title_risks :: jstring where
  "title_risks = [0x98CE, 0x9669, 0x4E0E, 0x963B, 0x585E]"

definition title_plan :: jstring where
  "title_plan = [0x4E0B, 0x5468, 0x8BA1, 0x5212]"

definition mergeWeeklyContent :: "runtime \<Rightarrow> jstring \<Rightarrow> WeeklyAggregation \<Rightarrow> jstring" where
  "mergeWeeklyContent rt existingContent newAggregation =
     (if trim existingContent = [] then wa_content newAggregation
      else
        let userSummary = extractSection rt existingContent title_summary;
            userRisks = extractSection rt existingContent title_risks;
            userPlan = extractSection rt existingContent title_plan;
            content0 = wa_content newAggregation;
            content1 = (if userSummary \<noteq> [] then replaceSection rt content0 title_summary_full userSummary
                        else content0);
            content2 = (if userRisks \<noteq> [] \<and> userRisks \<noteq> asc ''-''
                        then replaceSection rt content1 title_risks userRisks else content1);
            content3 = (if userPlan \<noteq> [] \<and> userPlan \<noteq> asc ''-''
                        then replaceSection rt content2 title_plan userPlan else content2)
        in content3)"


section \<open>A runtime to evaluate with\<close>

text \<open>Canonicalize on Basic Latin (a to z become A to Z; every other code unit of the
  inputs below has no case) and the code-unit order, which is how \<open>localeCompare\<close> orders
  ISO dates.\<close>

definition ascii_upper :: "nat \<Rightarrow> nat" where
  "ascii_upper c = (if 97 \<le> c \<and> c \<le> 122 then c - 32 else c)"

fun compare_units :: "jstring \<Rightarrow> jstring \<Rightarrow> int" where
  "compare_units [] [] = 0"
| "compare_units [] (d # ds) = - 1"
| "compare_units (c # cs) [] = 1"
| "compare_units (c # cs) (d # ds) =
     (if c < d then - 1 else if d < c then 1 else compare_units cs ds)"

definition basic_runtime :: runtime where
  "basic_runtime = \<lparr> canonicalize = ascii_upper, localeCompare = compare_units \<rparr>"


section \<open>The list syntax as the specification words it\<close>

text \<open>The specification's reading of a list line, \<open>^[-*]\s*(\[[ xX]\])?\s*(.+)\<close>, kept
  beside the source's pattern for comparison; the result is the last capture group.\<close>

definition checkbox_then :: "(jstring \<Rightarrow> 'a option) \<Rightarrow> jstring \<Rightarrow> 'a option" where
  "checkbox_then k s =
     (case s of
        a # b # c # rest \<Rightarrow>
          if a = 91 \<and> (b = 32 \<or> b = 120 \<or> b = 88) \<and> c = 93
          then (case k rest of Some r \<Rightarrow> Some r | None \<Rightarrow> k s)
          else k s
      | _ \<Rightarrow> k s)"

definition spec_list_item_match :: "jstring \<Rightarrow> jstring option" where
  "spec_list_item_match l =
     (case l of
        [] \<Rightarrow> None
      | c # cs \<Rightarrow>
          if c = 45 \<or> c = 42 then ws_star (checkbox_then (ws_star dot_plus_capture)) cs
          else None)"

definition spec_extractListItems :: "runtime \<Rightarrow> jstring \<Rightarrow> jstring \<Rightarrow> jstring list" where
  "spec_extractListItems rt content sectionTitle =
     List.map_filter spec_list_item_match (split_nl (extractSection rt content sectionTitle))"

text \<open>A list line taken apart: marker, white space, an optional complete checkbox, white
  space, and the item text.\<close>

record list_line =
  ll_marker :: nat
  ll_space :: jstring
  ll_checkbox :: jstring
  ll_gap :: jstring
  ll_text :: jstring

definition render_line :: "list_line \<Rightarrow> jstring" where
  "render_line ll = ll_marker ll # ll_space ll @ ll_checkbox ll @ ll_gap ll @ ll_text ll"

definition checkbox_text :: "jstring \<Rightarrow> bool" where
  "checkbox_text cb = (cb = asc ''[ ]'' \<or> cb = asc ''[x]'' \<or> cb = asc ''[X]'')"

definition plain_item :: "list_line \<Rightarrow> bool" where
  "plain_item ll =
     ((ll_marker ll = 45 \<or> ll_marker ll = 42)
      \<and> ll_space ll \<noteq> [] \<and> list_all is_space (ll_space ll)
      \<and> list_all is_space (ll_gap ll)
      \<and> ll_text ll \<noteq> [] \<and> list_all not_terminator (ll_text ll)
      \<and> \<not> is_space (hd (ll_text ll))
      \<and> (checkbox_text (ll_checkbox ll)
           \<or> (ll_checkbox ll = [] \<and> ll_gap ll = []
               \<and> hd (ll_text ll) \<noteq> 91 \<and> hd (ll_text ll) \<noteq> 120
               \<and> hd (ll_text ll) \<noteq> 88 \<and> hd (ll_text ll) \<noteq> 93)))"

text \<open>A line that is no list line: it does not begin with a marker followed by a
  white-space character.\<close>

definition not_list_line :: "jstring \<Rightarrow> bool" where
  "not_list_line l =
     (case l of
        [] \<Rightarrow> True
      | c # cs \<Rightarrow> \<not> ((c = 45 \<or> c = 42) \<and> cs \<noteq> [] \<and> is_space (hd cs)))"

text \<open>A section read line by line: each line is a list line taken apart, or another
  line. A list line taken apart stands for its trimmed text, another line for nothing.\<close>

datatype section_line = ItemLine list_line | OtherLine jstring

fun render_section_line :: "section_line \<Rightarrow> jstring" where
  "render_section_line (ItemLine ll) = render_line ll"
| "render_section_line (OtherLine l) = l"

fun well_formed_line :: "section_line \<Rightarrow> bool" where
  "well_formed_line (ItemLine ll) = plain_item ll"
| "well_formed_line (OtherLine l) = not_list_line l"

fun line_items :: "section_line \<Rightarrow> jstring list" where
  "line_items (ItemLine ll) = [trim (ll_text ll)]"
| "line_items (OtherLine l) = []"

section \<open>Notions for the statements about the merge\<close>

text \<open>The first line of a generated report.\<close>

definition title_line :: "WeeklyMeta \<Rightarrow> jstring" where
  "title_line weekMeta = asc ''# Week '' @ wm_week weekMeta @ [32, 0x5DE5, 0x4F5C, 0x5468, 0x62A5]"

text \<open>A title has a sole opener in a body when exactly one line of the body opens the
  section of that title.\<close>

definition sole_opener :: "runtime \<Rightarrow> jstring \<Rightarrow> jstring \<Rightarrow> bool" where
  "sole_opener rt content sectionTitle =
     (length (filter (opens_section (canonicalize rt) sectionTitle) (split_nl content)) = 1)"

section \<open>Example inputs\<close>

definition example_tasks :: jstring where
  "example_tasks = asc ''## Tasks'' @ [10] @ asc ''- Task 1'' @ [10] @ asc ''- [ ] Unchecked''
     @ [10] @ asc ''- [x] Checked''"

definition example_entries :: "section_line list" where
  "example_entries =
     [ItemLine \<lparr> ll_marker = 45, ll_space = asc '' '', ll_checkbox = [], ll_gap = [],
                 ll_text = asc ''Task 1'' \<rparr>,
      OtherLine [],
      OtherLine (asc ''note''),
      ItemLine \<lparr> ll_marker = 45, ll_space = asc '' '', ll_checkbox = asc ''[ ]'', ll_gap = asc '' '',
                 ll_text = asc ''Unchecked'' \<rparr>,
      ItemLine \<lparr> ll_marker = 42, ll_space = asc '' '', ll_checkbox = asc ''[X]'', ll_gap = asc '' '',
                 ll_text = asc ''Checked '' \<rparr>,
      OtherLine (asc ''-Task''),
      ItemLine \<lparr> ll_marker = 45, ll_space = asc '' '', ll_checkbox = [], ll_gap = [],
                 ll_text = asc ''Task 1'' \<rparr>]"

definition example_body :: jstring where
  "example_body = asc ''# Tasks'' @ [10] @ asc ''- Task 1'' @ [10, 10] @ asc ''note'' @ [10]
     @ asc ''- [ ] Unchecked'' @ [10] @ asc ''* [X] Checked '' @ [10] @ asc ''-Task'' @ [10]
     @ asc ''- Task 1'' @ [10] @ asc ''# Other''"

definition example_sections :: jstring where
  "example_sections = asc ''intro'' @ [10] @ asc ''##tasks today'' @ [10] @ asc ''a'' @ [10]
     @ asc '' b '' @ [10] @ asc ''# Other'' @ [10] @ asc ''c''"

definition daily_12 :: DailyLog where
  "daily_12 = \<lparr> dl_meta = \<lparr> dm_date = asc ''2026-01-12'', dm_week = asc ''2026-W03'',
       dm_projects = [], dm_tags = [], dm_weekly_highlight = False,
       dm_github = \<lparr> gl_issues = [], gl_prs = [] \<rparr> \<rparr>,
     dl_content = asc ''first day'', dl_filePath = asc ''daily/2026-01-12.md'' \<rparr>"

definition daily_13 :: DailyLog where
  "daily_13 = \<lparr> dl_meta = \<lparr> dm_date = asc ''2026-01-13'', dm_week = asc ''2026-W03'',
       dm_projects = [], dm_tags = [], dm_weekly_highlight = False,
       dm_github = \<lparr> gl_issues = [], gl_prs = [] \<rparr> \<rparr>,
     dl_content = asc ''second day'', dl_filePath = asc ''daily/2026-01-13.md'' \<rparr>"

definition week_03 :: WeeklyMeta where
  "week_03 = \<lparr> wm_week = asc ''2026-W03'', wm_type = asc ''weekly'',
     wm_start_date = asc ''2026-01-12'', wm_end_date = asc ''2026-01-18'', wm_projects = [] \<rparr>"

definition daily_hashtag :: DailyLog where
  "daily_hashtag = \<lparr> dl_meta = \<lparr> dm_date = asc ''2026-01-12'', dm_week = asc ''2026-W03'',
       dm_projects = [], dm_tags = [], dm_weekly_highlight = False,
       dm_github = \<lparr> gl_issues = [], gl_prs = [] \<rparr> \<rparr>,
     dl_content = [35, 0x4E0B, 0x5468, 0x8BA1, 0x5212, 10] @ asc ''ship it'',
     dl_filePath = asc ''daily/2026-01-12.md'' \<rparr>"
text \<open>The hand edit of the weekly tests: \<open>content.replace(pattern, replacement)\<close> with a
  string pattern replaces the first occurrence.\<close>

fun replace_first :: "jstring \<Rightarrow> jstring \<Rightarrow> jstring \<Rightarrow> jstring" where
  "replace_first [] pat rep = (if pat = [] then rep else [])"
| "replace_first (c # cs) pat rep =
     (if starts_with (c # cs) pat then rep @ drop (length pat) (c # cs)
      else c # replace_first cs pat rep)"

definition edited_sentence :: jstring where
  "edited_sentence = [0x8FD9, 0x662F, 0x624B, 0x52A8, 0x7F16, 0x8F91, 0x7684, 0x603B, 0x7ED3]"

definition edited_report :: jstring where
  "edited_report =
     replace_first (wa_content (aggregateDailiesToWeekly basic_runtime [daily_12] week_03))
       (heading_summary @ [10, 10])
       (heading_summary @ [10, 10] @ edited_sentence @ [10])"

section \<open>Frontmatter (core/parser.ts)\<close>

text \<open>
  Errors are values. A \<open>ParseError\<close> carries the name of the offending field (its message
  text is left out); \<open>Error\<close> is a plain \<open>Error\<close> of the source and \<open>LibraryError\<close> an
  exception thrown inside an imported library.
\<close>

datatype error = ParseError jstring | Error jstring | LibraryError

record 'm ParseResult =
  pr_meta :: 'm
  pr_content :: jstring
  pr_raw :: jstring

text \<open>
  The imported libraries are parameters: \<open>fl_load language block\<close> is the object that
  gray-matter builds from a raw front-matter block (its YAML engine by default, the empty
  object for a blank block), \<open>fl_empty\<close> is the empty object \<open>{}\<close> at the type of the
  metadata, and \<open>fl_stringify\<close> is \<open>yaml.stringify\<close> with the options of the source.
\<close>

record ('p, 'm) frontmatter_lib =
  fl_load :: "jstring \<Rightarrow> jstring \<Rightarrow> error + 'p"
  fl_empty :: 'p
  fl_stringify :: "'m \<Rightarrow> jstring"

text \<open>
  The call \<open>matter(fileContent)\<close> of gray-matter, which is not part of the repository:
  the way it finds the delimiters, after its \<open>index.js\<close>. A text that does not begin
  with \<open>---\<close> has no front matter: the data is the empty object and the content is the
  whole text.
\<close>

definition stripBom :: "jstring \<Rightarrow> jstring" where
  "stripBom s = (case s of [] \<Rightarrow> [] | c # cs \<Rightarrow> if c = 0xFEFF then cs else s)"

fun indexOf :: "jstring \<Rightarrow> jstring \<Rightarrow> nat option" where
  "indexOf [] pat = (if pat = [] then Some 0 else None)"
| "indexOf (c # cs) pat =
     (if starts_with (c # cs) pat then Some 0
      else (case indexOf cs pat of None \<Rightarrow> None | Some i \<Rightarrow> Some (Suc i)))"

text \<open>\<open>str.search(/\r?\n/)\<close>.\<close>

fun search_newline :: "jstring \<Rightarrow> nat option" where
  "search_newline [] = None"
| "search_newline (c # cs) =
     (if c = 10 \<or> (c = 13 \<and> starts_with cs [10]) then Some 0
      else (case search_newline cs of None \<Rightarrow> None | Some i \<Rightarrow> Some (Suc i)))"

definition matter ::
  "('p, 'm) frontmatter_lib \<Rightarrow> jstring \<Rightarrow> error + ('p \<times> jstring)" where
  "matter lib input =
     (if input = [] then Inr (fl_empty lib, [])
      else
        let str0 = stripBom input in
        if \<not> starts_with str0 (asc ''---'') then Inr (fl_empty lib, str0)
        else if starts_with (drop 3 str0) (asc ''-'') then Inr (fl_empty lib, str0)
        else
          let str1 = drop 3 str0;
              len = length str1;
              raw = (case search_newline str1 of Some i \<Rightarrow> take i str1 | None \<Rightarrow> butlast str1);
              language = trim raw;
              str2 = (if language \<noteq> [] then drop (length raw) str1 else str1);
              closeIndex = (case indexOf str2 (10 # asc ''---'') of Some i \<Rightarrow> i | None \<Rightarrow> len);
              content = (if closeIndex = len then []
                         else let c0 = drop (closeIndex + 4) str2;
                                  c1 = (if starts_with c0 [13] then drop 1 c0 else c0)
                              in (if starts_with c1 [10] then drop 1 c1 else c1))
          in (case fl_load lib language (take closeIndex str2) of
                Inl e \<Rightarrow> Inl e
              | Inr data \<Rightarrow> Inr (data, content)))"

definition parseFrontmatter ::
  "('p, 'm) frontmatter_lib \<Rightarrow> jstring \<Rightarrow> error + 'p ParseResult" where
  "parseFrontmatter lib fileContent =
     (case matter lib fileContent of
        Inl e \<Rightarrow> Inl e
      | Inr (data, content) \<Rightarrow>
          Inr \<lparr> pr_meta = data, pr_content = trim content, pr_raw = fileContent \<rparr>)"

definition serializeFrontmatter :: "('p, 'm) frontmatter_lib \<Rightarrow> 'm \<Rightarrow> jstring \<Rightarrow> jstring" where
  "serializeFrontmatter lib meta content =
     (let yamlContent = trim (fl_stringify lib meta)
      in asc ''---'' @ [10] @ yamlContent @ [10] @ asc ''---'' @ [10, 10] @ content @ [10])"

text \<open>
  What the parser finds in a date field: a \<open>Date\<close> object (with its time value, or none
  when it is an Invalid Date), a string, or another value, of which only the truthiness
  matters. The \<open>Date\<close> constructor and the local-time \<open>format\<close> of date-fns are parameters.
\<close>

datatype date_field = DateObject "int option" | DateString jstring | OtherValue bool

record date_runtime =
  parseDate :: "jstring \<Rightarrow> int option"
  formatDate :: "int \<Rightarrow> jstring"

definition truthy_date :: "date_field option \<Rightarrow> bool" where
  "truthy_date v =
     (case v of
        None \<Rightarrow> False
      | Some (DateObject t) \<Rightarrow> True
      | Some (DateString s) \<Rightarrow> s \<noteq> []
      | Some (OtherValue b) \<Rightarrow> b)"

definition normalizeDate :: "date_runtime \<Rightarrow> date_field \<Rightarrow> error + jstring" where
  "normalizeDate dr d =
     (case d of
        DateObject (Some t) \<Rightarrow> Inr (formatDate dr t)
      | DateObject None \<Rightarrow> Inl (ParseError (asc ''date''))
      | DateString s \<Rightarrow>
          (case parseDate dr s of Some t \<Rightarrow> Inr (formatDate dr t) | None \<Rightarrow> Inr s)
      | OtherValue b \<Rightarrow> Inl (ParseError (asc ''date'')))"

text \<open>\<open>Partial<WeeklyMeta>\<close> and \<open>Partial<DailyMeta>\<close>: every field may be missing.\<close>

record PartialWeeklyMeta =
  pw_week :: "jstring option"
  pw_type :: "jstring option"
  pw_start_date :: "date_field option"
  pw_end_date :: "date_field option"
  pw_projects :: "jstring list option"

record PartialDailyMeta =
  pd_date :: "date_field option"
  pd_type :: "jstring option"
  pd_week :: "jstring option"
  pd_projects :: "jstring list option"
  pd_tags :: "jstring list option"
  pd_weekly_highlight :: "bool option"
  pd_github :: "GitHubLink option"

definition empty_weekly :: PartialWeeklyMeta where
  "empty_weekly = \<lparr> pw_week = None, pw_type = None, pw_start_date = None, pw_end_date = None,
     pw_projects = None \<rparr>"

definition empty_daily :: PartialDailyMeta where
  "empty_daily = \<lparr> pd_date = None, pd_type = None, pd_week = None, pd_projects = None,
     pd_tags = None, pd_weekly_highlight = None, pd_github = None \<rparr>"

definition falsy_string :: "jstring option \<Rightarrow> bool" where
  "falsy_string v = (case v of None \<Rightarrow> True | Some s \<Rightarrow> s = [])"

definition or_default :: "'a option \<Rightarrow> 'a \<Rightarrow> 'a" where
  "or_default v d = (case v of None \<Rightarrow> d | Some x \<Rightarrow> x)"

definition validateDailyMeta :: "date_runtime \<Rightarrow> PartialDailyMeta \<Rightarrow> error + DailyMeta" where
  "validateDailyMeta dr meta =
     (if \<not> truthy_date (pd_date meta) then Inl (ParseError (asc ''date''))
      else if falsy_string (pd_type meta) \<or> pd_type meta \<noteq> Some (asc ''daily'')
        then Inl (ParseError (asc ''type''))
      else (case normalizeDate dr (the (pd_date meta)) of
              Inl e \<Rightarrow> Inl e
            | Inr date \<Rightarrow>
                Inr \<lparr> dm_date = date,
                      dm_week = (if falsy_string (pd_week meta) then [] else the (pd_week meta)),
                      dm_projects = or_default (pd_projects meta) [],
                      dm_tags = or_default (pd_tags meta) [],
                      dm_weekly_highlight = or_default (pd_weekly_highlight meta) False,
                      dm_github = or_default (pd_github meta) \<lparr> gl_issues = [], gl_prs = [] \<rparr> \<rparr>))"

definition normalizeOptionalDate :: "date_runtime \<Rightarrow> date_field option \<Rightarrow> error + jstring" where
  "normalizeOptionalDate dr v =
     (if truthy_date v then normalizeDate dr (the v) else Inr [])"

definition validateWeeklyMeta :: "date_runtime \<Rightarrow> PartialWeeklyMeta \<Rightarrow> error + WeeklyMeta" where
  "validateWeeklyMeta dr meta =
     (if falsy_string (pw_week meta) then Inl (ParseError (asc ''week''))
      else if falsy_string (pw_type meta) \<or> pw_type meta \<noteq> Some (asc ''weekly'')
        then Inl (ParseError (asc ''type''))
      else (case normalizeOptionalDate dr (pw_start_date meta) of
              Inl e \<Rightarrow> Inl e
            | Inr start_date \<Rightarrow>
                (case normalizeOptionalDate dr (pw_end_date meta) of
                   Inl e \<Rightarrow> Inl e
                 | Inr end_date \<Rightarrow>
                     Inr \<lparr> wm_week = the (pw_week meta),
                           wm_type = asc ''weekly'',
                           wm_start_date = start_date,
                           wm_end_date = end_date,
                           wm_projects = or_default (pw_projects meta) [] \<rparr>)))"

definition parseDaily ::
  "(PartialDailyMeta, DailyMeta) frontmatter_lib \<Rightarrow> date_runtime \<Rightarrow> jstring \<Rightarrow> jstring
     \<Rightarrow> error + DailyLog" where
  "parseDaily lib dr fileContent filePath =
     (case parseFrontmatter lib fileContent of
        Inl e \<Rightarrow> Inl e
      | Inr r \<Rightarrow>
          (case validateDailyMeta dr (pr_meta r) of
             Inl e \<Rightarrow> Inl e
           | Inr meta \<Rightarrow> Inr \<lparr> dl_meta = meta, dl_content = pr_content r, dl_filePath = filePath \<rparr>))"

definition parseWeekly ::
  "(PartialWeeklyMeta, WeeklyMeta) frontmatter_lib \<Rightarrow> date_runtime \<Rightarrow> jstring \<Rightarrow> jstring
     \<Rightarrow> error + WeeklyReport" where
  "parseWeekly lib dr fileContent filePath =
     (case parseFrontmatter lib fileContent of
        Inl e \<Rightarrow> Inl e
      | Inr r \<Rightarrow>
          (case validateWeeklyMeta dr (pr_meta r) of
             Inl e \<Rightarrow> Inl e
           | Inr meta \<Rightarrow> Inr \<lparr> wr_meta = meta, wr_content = pr_content r, wr_filePath = filePath \<rparr>))"

definition serializeWeekly ::
  "(PartialWeeklyMeta, WeeklyMeta) frontmatter_lib \<Rightarrow> WeeklyReport \<Rightarrow> jstring" where
  "serializeWeekly lib weekly = serializeFrontmatter lib (wr_meta weekly) (wr_content weekly)"

section \<open>Weekly reports in a workspace (weekly/index.ts)\<close>

text \<open>
  The files of a workspace are a map from paths to contents; \<open>exists\<close>, \<open>readFile\<close> and
  \<open>writeFile\<close> are lookup and update. What the module takes from the file-path layer,
  the clock, the week calendar of the template engine and the reader of the daily logs
  is a parameter; the reader gets the files and returns the parsed logs of the week.
\<close>

type_synonym files = "jstring \<rightharpoonup> jstring"

record workspace_env =
  we_lib :: "(PartialWeeklyMeta, WeeklyMeta) frontmatter_lib"
  we_dates :: date_runtime
  we_runtime :: runtime
  getWeeklyFilePath :: "jstring \<Rightarrow> jstring \<Rightarrow> jstring"
  getCurrentWeek :: jstring
  getWeekDateRange :: "jstring \<Rightarrow> error + (jstring \<times> jstring)"
  getDailiesForWeek :: "files \<Rightarrow> jstring \<Rightarrow> jstring \<Rightarrow> error + DailyLog list"

definition createDefaultWeeklyMeta :: "jstring \<Rightarrow> jstring \<Rightarrow> jstring \<Rightarrow> WeeklyMeta" where
  "createDefaultWeeklyMeta week startDate endDate =
     \<lparr> wm_week = week, wm_type = asc ''weekly'', wm_start_date = startDate,
       wm_end_date = endDate, wm_projects = [] \<rparr>"

definition getWeekly ::
  "workspace_env \<Rightarrow> files \<Rightarrow> jstring \<Rightarrow> jstring \<Rightarrow> error + WeeklyReport option" where
  "getWeekly env fs workspacePath week =
     (let filePath = getWeeklyFilePath env workspacePath week in
      case fs filePath of
        None \<Rightarrow> Inr None
      | Some content \<Rightarrow>
          (case parseWeekly (we_lib env) (we_dates env) content filePath of
             Inl e \<Rightarrow> Inl e
           | Inr weekly \<Rightarrow> Inr (Some weekly)))"

definition aggregateFromDailies ::
  "workspace_env \<Rightarrow> files \<Rightarrow> jstring \<Rightarrow> jstring \<Rightarrow> error + WeeklyAggregation" where
  "aggregateFromDailies env fs workspacePath week =
     (case getWeekDateRange env week of
        Inl e \<Rightarrow> Inl e
      | Inr (start, end) \<Rightarrow>
          (case getDailiesForWeek env fs workspacePath week of
             Inl e \<Rightarrow> Inl e
           | Inr dailies \<Rightarrow>
               Inr (aggregateDailiesToWeekly (we_runtime env) dailies
                      (createDefaultWeeklyMeta week start end))))"

definition generateWeekly ::
  "workspace_env \<Rightarrow> files \<Rightarrow> jstring \<Rightarrow> jstring option \<Rightarrow> files \<times> (error + WeeklyReport)" where
  "generateWeekly env fs workspacePath week =
     (let targetWeek = (case week of
                          None \<Rightarrow> getCurrentWeek env
                        | Some w \<Rightarrow> if w = [] then getCurrentWeek env else w);
          filePath = getWeeklyFilePath env workspacePath targetWeek
      in case getWeekly env fs workspacePath targetWeek of
           Inl e \<Rightarrow> (fs, Inl e)
         | Inr existing \<Rightarrow>
             (case aggregateFromDailies env fs workspacePath targetWeek of
                Inl e \<Rightarrow> (fs, Inl e)
              | Inr aggregation \<Rightarrow>
                  (case (case existing of
                           Some found \<Rightarrow>
                             Inr \<lparr> wr_meta = (wr_meta found) \<lparr> wm_projects := wa_projects aggregation \<rparr>,
                                   wr_content = mergeWeeklyContent (we_runtime env) (wr_content found) aggregation,
                                   wr_filePath = wr_filePath found \<rparr>
                         | None \<Rightarrow>
                             (case getWeekDateRange env targetWeek of
                                Inl e \<Rightarrow> Inl e
                              | Inr (start, end) \<Rightarrow>
                                  Inr \<lparr> wr_meta = (createDefaultWeeklyMeta targetWeek start end)
                                                    \<lparr> wm_projects := wa_projects aggregation \<rparr>,
                                        wr_content = wa_content aggregation,
                                        wr_filePath = filePath \<rparr>)) of
                     Inl e \<Rightarrow> (fs, Inl e)
                   | Inr weekly \<Rightarrow>
                       (fs (filePath \<mapsto> serializeWeekly (we_lib env) weekly), Inr weekly))))"

section \<open>A workspace to evaluate with\<close>

text \<open>A front-matter library whose metadata block holds the week identifier alone, a
  calendar that knows week 2026-W03, and a reader that finds the log of 2026-01-12.\<close>

definition week_only_lib :: "(PartialWeeklyMeta, WeeklyMeta) frontmatter_lib" where
  "week_only_lib =
     \<lparr> fl_load = (\<lambda>language block.
          Inr \<lparr> pw_week = Some (trim block), pw_type = Some (asc ''weekly''),
                pw_start_date = Some (DateString (asc ''2026-01-12'')),
                pw_end_date = Some (DateString (asc ''2026-01-18'')),
                pw_projects = None \<rparr>),
       fl_empty = empty_weekly,
       fl_stringify = wm_week \<rparr>"

definition plain_dates :: date_runtime where
  "plain_dates = \<lparr> parseDate = (\<lambda>s. None), formatDate = (\<lambda>t. []) \<rparr>"

definition example_env :: workspace_env where
  "example_env =
     \<lparr> we_lib = week_only_lib,
       we_dates = plain_dates,
       we_runtime = basic_runtime,
       getWeeklyFilePath = (\<lambda>workspacePath week. workspacePath @ asc ''/weekly/'' @ week @ asc ''.md''),
       getCurrentWeek = asc ''2026-W03'',
       getWeekDateRange = (\<lambda>week. if week = asc ''2026-W03''
                                   then Inr (asc ''2026-01-12'', asc ''2026-01-18'')
                                   else Inl (Error (asc ''Invalid week format''))),
       getDailiesForWeek = (\<lambda>fs workspacePath week. Inr [daily_12]) \<rparr>"

definition example_existing :: WeeklyReport where
  "example_existing =
     \<lparr> wr_meta = \<lparr> wm_week = asc ''2026-W03'', wm_type = asc ''weekly'',
                   wm_start_date = asc ''2026-01-12'', wm_end_date = asc ''2026-01-18'',
                   wm_projects = [] \<rparr>,
       wr_content = asc ''old body'',
       wr_filePath = asc ''ws/weekly/2026-W03.md'' \<rparr>"

section \<open>A date runtime to evaluate with\<close>

text \<open>
  \<open>new Date(s)\<close> reads a date-only ISO string as midnight UTC of that day, and
  \<open>format(d, 'yyyy-MM-dd')\<close> of date-fns prints the local calendar day of the instant.
  The runtime below does both for a local zone at a fixed offset from UTC, in minutes;
  it reads the date-only form alone. Days are counted in the proleptic Gregorian
  calendar from 1970-01-01.
\<close>

definition days_from_civil :: "int \<Rightarrow> int \<Rightarrow> int \<Rightarrow> int" where
  "days_from_civil y m d =
     (let y1 = (if m \<le> 2 then y - 1 else y);
          era = y1 div 400;
          yoe = y1 - era * 400;
          doy = (153 * (if 2 < m then m - 3 else m + 9) + 2) div 5 + d - 1;
          doe = yoe * 365 + yoe div 4 - yoe div 100 + doy
      in era * 146097 + doe - 719468)"

definition civil_from_days :: "int \<Rightarrow> int \<times> int \<times> int" where
  "civil_from_days z0 =
     (let z = z0 + 719468;
          era = z div 146097;
          doe = z - era * 146097;
          yoe = (doe - doe div 1460 + doe div 36524 - doe div 146096) div 365;
          doy = doe - (365 * yoe + yoe div 4 - yoe div 100);
          mp = (5 * doy + 2) div 153;
          d = doy - (153 * mp + 2) div 5 + 1;
          m = (if mp < 10 then mp + 3 else mp - 9);
          y = yoe + era * 400
      in (if m \<le> 2 then y + 1 else y, m, d))"

definition is_digit :: "nat \<Rightarrow> bool" where
  "is_digit c = (48 \<le> c \<and> c \<le> 57)"

fun digits_value :: "jstring \<Rightarrow> int" where
  "digits_value [] = 0"
| "digits_value (c # cs) = (int c - 48) * 10 ^ length cs + digits_value cs"

definition parse_iso_day :: "jstring \<Rightarrow> (int \<times> int \<times> int) option" where
  "parse_iso_day s =
     (if length s = 10 \<and> list_all is_digit (take 4 s) \<and> s ! 4 = 45
         \<and> list_all is_digit (take 2 (drop 5 s)) \<and> s ! 7 = 45
         \<and> list_all is_digit (drop 8 s)
      then let y = digits_value (take 4 s);
               m = digits_value (take 2 (drop 5 s));
               d = digits_value (drop 8 s)
           in (if 1 \<le> m \<and> m \<le> 12 \<and> 1 \<le> d \<and> civil_from_days (days_from_civil y m d) = (y, m, d)
               then Some (y, m, d) else None)
      else None)"

definition digit :: "int \<Rightarrow> nat" where
  "digit v = nat (48 + v mod 10)"

definition pad2 :: "int \<Rightarrow> jstring" where
  "pad2 v = [digit (v div 10), digit v]"

definition pad4 :: "int \<Rightarrow> jstring" where
  "pad4 v = [digit (v div 1000), digit (v div 100), digit (v div 10), digit v]"

definition zoned_dates :: "int \<Rightarrow> date_runtime" where
  "zoned_dates offset =
     \<lparr> parseDate = (\<lambda>s. case parse_iso_day s of
                          None \<Rightarrow> None
                        | Some (y, m, d) \<Rightarrow> Some (days_from_civil y m d * 86400000)),
       formatDate = (\<lambda>t. case civil_from_days ((t + offset * 60000) div 86400000) of
                          (y, m, d) \<Rightarrow> pad4 y @ asc ''-'' @ pad2 m @ asc ''-'' @ pad2 d) \<rparr>"

text \<open>A front-matter library that gives back what was stored: its metadata block is
  three lines, the week and the two dates, which it returns as strings.\<close>

definition three_line_lib :: "(PartialWeeklyMeta, WeeklyMeta) frontmatter_lib" where
  "three_line_lib =
     \<lparr> fl_load = (\<lambda>language block.
          case split_nl (trim block) of
            [week, start_date, end_date] \<Rightarrow>
              Inr \<lparr> pw_week = Some week, pw_type = Some (asc ''weekly''),
                    pw_start_date = Some (DateString start_date),
                    pw_end_date = Some (DateString end_date),
                    pw_projects = None \<rparr>
          | _ \<Rightarrow> Inl LibraryError),
       fl_empty = empty_weekly,
       fl_stringify = (\<lambda>meta. join_nl [wm_week meta, wm_start_date meta, wm_end_date meta]) \<rparr>"

definition example_partial :: PartialWeeklyMeta where
  "example_partial =
     \<lparr> pw_week = Some (asc ''2026-W03''), pw_type = Some (asc ''weekly''),
       pw_start_date = Some (DateString (asc ''2026-01-13'')),
       pw_end_date = Some (DateString (asc ''2026-01-19'')),
       pw_projects = None \<rparr>"

text \<open>The same workspace in a local zone five hours behind UTC, with the library that
  gives back what was stored. The file of week 2026-W03 is the one that \<open>serializeWeekly\<close>
  writes for the report with start date 2026-01-12 and end date 2026-01-18.\<close>

definition west_env :: workspace_env where
  "west_env = example_env \<lparr> we_lib := three_line_lib, we_dates := zoned_dates (- 300) \<rparr>"

definition west_files :: files where
  "west_files = [asc ''ws/weekly/2026-W03.md'' \<mapsto> serializeWeekly three_line_lib example_existing]"

text \<open>What the merge leaves under the heading of the Risks or of the Plan section, for the
  text found in that section of the existing body: a blank line and the text when it
  is an edit, the generated placeholder and a blank line otherwise.\<close>

definition merged_interior :: "jstring \<Rightarrow> jstring list" where
  "merged_interior userText =
     (if userText \<noteq> [] \<and> userText \<noteq> asc ''-'' then [] # split_nl userText
      else [asc ''-'', []])"

text \<open>A log of 2026-01-13 whose text has the line \<open>#\<close> followed by the full Summary title
  (a hashtag) and then a line of its own.\<close>

definition daily_tagged :: DailyLog where
  "daily_tagged = \<lparr> dl_meta = \<lparr> dm_date = asc ''2026-01-13'', dm_week = asc ''2026-W03'',
       dm_projects = [], dm_tags = [], dm_weekly_highlight = False,
       dm_github = \<lparr> gl_issues = [], gl_prs = [] \<rparr> \<rparr>,
     dl_content = 35 # title_summary_full @ [10] @ asc ''important detail'',
     dl_filePath = asc ''daily/2026-01-13.md'' \<rparr>"

text \<open>The edited report with a second hand edit, in the Risks section.\<close>

definition edited_twice :: jstring where
  "edited_twice =
     replace_first edited_report (heading_risks @ [10] @ asc ''-'')
       (heading_risks @ [10] @ asc ''- vendor delay'')"

section \<open>Facts about strings\<close>


lemma starts_with_iff: "starts_with s t \<longleftrightarrow> (\<exists>suf. s = t @ suf)"
  by (induction s t rule: starts_with.induct) auto

lemma includes_str_iff: "includes_str s t \<longleftrightarrow> (\<exists>pre suf. s = pre @ t @ suf)"
proof (induction s)
  case Nil
  then show ?case by auto
next
  case (Cons c cs)
  show ?case
  proof
    assume "includes_str (c # cs) t"
    then consider "starts_with (c # cs) t" | "includes_str cs t" by auto
    then show "\<exists>pre suf. c # cs = pre @ t @ suf"
    proof cases
      case 1
      then obtain suf where "c # cs = t @ suf" by (auto simp: starts_with_iff)
      then have "c # cs = [] @ t @ suf" by simp
      then show ?thesis by blast
    next
      case 2
      then obtain pre suf where "cs = pre @ t @ suf" using Cons.IH by blast
      then have "c # cs = (c # pre) @ t @ suf" by simp
      then show ?thesis by blast
    qed
  next
    assume "\<exists>pre suf. c # cs = pre @ t @ suf"
    then obtain pre suf where e: "c # cs = pre @ t @ suf" by blast
    show "includes_str (c # cs) t"
    proof (cases pre)
      case Nil
      then have "starts_with (c # cs) t" using e by (auto simp: starts_with_iff)
      then show ?thesis by simp
    next
      case (Cons p ps)
      then have "cs = ps @ t @ suf" using e by simp
      then have "includes_str cs t" using Cons.IH by blast
      then show ?thesis by simp
    qed
  qed
qed

lemma includes_strI: "s = pre @ t @ suf \<Longrightarrow> includes_str s t"
  by (auto simp: includes_str_iff)

lemma array_sort_Nil: "array_sort cmp [] = []"
  by (simp add: array_sort_def)

section \<open>Empty aggregation\<close>

text \<open>
  C7. The aggregator has no failing branch: it is a total function of the list of daily
  logs and the weekly metadata. On the empty list, for every runtime and every weekly
  metadata, the projects, the highlights and the daily summaries are empty, the metadata
  is the given one with an empty project list, and the content contains the fallback
  sentence of the Daily Summaries section.
\<close>

theorem empty_aggregation:
  "wa_projects (aggregateDailiesToWeekly rt [] weekMeta) = []
   \<and> wa_highlights (aggregateDailiesToWeekly rt [] weekMeta) = []
   \<and> wa_dailySummaries (aggregateDailiesToWeekly rt [] weekMeta) = []
   \<and> wa_meta (aggregateDailiesToWeekly rt [] weekMeta) = weekMeta \<lparr> wm_projects := [] \<rparr>
   \<and> includes_str (wa_content (aggregateDailiesToWeekly rt [] weekMeta)) no_dailies"
proof -
  let ?A = "aggregateDailiesToWeekly rt [] weekMeta"
  have c: "wa_content ?A = generateWeeklyContent weekMeta [] [] []"
    by (simp add: aggregateDailiesToWeekly_def aggregateSorted_def array_sort_Nil collectProjects_def Let_def)
  have "\<exists>pre suf. generateWeeklyContent weekMeta [] [] [] = pre @ no_dailies @ suf"
    unfolding generateWeeklyContent_def
    apply simp
    apply (rule exI [where x = "asc ''# Week '' @ wm_week weekMeta @ [32, 0x5DE5, 0x4F5C, 0x5468, 0x62A5] @ [10, 10] @ heading_summary @ [10, 10, 10]
         @ heading_highlights @ [10, 10] @ no_highlights @ [10, 10] @ heading_projects @ [10, 10] @ no_projects @ [10, 10] @ heading_dailies @ [10, 10]"])
    apply (rule exI [where x = "[10, 10] @ heading_risks @ [10] @ asc ''-'' @ [10, 10] @ heading_plan @ [10] @ asc ''-'' @ [10]"])
    apply (simp add: asc_def)
    done
  then have "includes_str (wa_content ?A) no_dailies"
    using c by (simp add: includes_str_iff)
  then show ?thesis
    by (simp add: aggregateDailiesToWeekly_def aggregateSorted_def array_sort_Nil collectProjects_def Let_def)
qed

lemma length_trim_le: "length (trim s) \<le> length s"
proof -
  have "length (trim s) \<le> length (dropWhile is_space s)"
    unfolding trim_def using length_dropWhile_le [of is_space "rev (dropWhile is_space s)"] by simp
  also have "\<dots> \<le> length s" by (rule length_dropWhile_le)
  finally show ?thesis .
qed

lemma ends_with_append: "ends_with (x @ t) t"
  by (simp add: ends_with_def starts_with_iff)

lemmas eval_defs = asc_def is_space_def is_line_terminator_def not_terminator_def trim_def
  heading_line_def opens_section_def accept_def dot_plus_capture_def dot_plus_eol_def
  heading_match_def list_item_match_def extractSection_def extractListItems_def
  basic_runtime_def ascii_upper_def excerpt_cleaned_def generateExcerpt_def

section \<open>Excerpt bound\<close>

text \<open>
  C6, as the code has it. For every content and every bound \<open>N \<ge> 0\<close> the excerpt has at
  most \<open>N + 3\<close> code units. When the cleaned content (headings stripped, runs of three or
  more newlines collapsed, trimmed) has at most \<open>N\<close> code units it is returned unchanged;
  otherwise the result is the first \<open>N\<close> code units of the cleaned content, trimmed again,
  followed by three dots, and so it ends with three dots.
\<close>

theorem excerpt_bound:
  assumes "0 \<le> N"
  shows "int (length (generateExcerpt content N)) \<le> N + 3
    \<and> (int (length (excerpt_cleaned content)) \<le> N \<longrightarrow>
          generateExcerpt content N = excerpt_cleaned content)
    \<and> (N < int (length (excerpt_cleaned content)) \<longrightarrow>
          generateExcerpt content N = trim (take (nat N) (excerpt_cleaned content)) @ asc ''...''
          \<and> ends_with (generateExcerpt content N) (asc ''...''))"
proof -
  let ?c = "excerpt_cleaned content"
  have t: "int (length (trim (take (nat N) ?c))) \<le> N"
  proof -
    have "length (trim (take (nat N) ?c)) \<le> length (take (nat N) ?c)" by (rule length_trim_le)
    also have "\<dots> \<le> nat N" by simp
    finally show ?thesis using assms by linarith
  qed
  have d: "length (asc ''...'') = 3" by (simp add: asc_def)
  show ?thesis
  proof (cases "int (length ?c) \<le> N")
    case True
    then show ?thesis by (simp add: generateExcerpt_def Let_def)
  next
    case False
    then have g: "generateExcerpt content N = trim (take (nat N) ?c) @ asc ''...''"
      by (simp add: generateExcerpt_def Let_def)
    have "int (length (generateExcerpt content N)) \<le> N + 3"
      using t d by (simp add: g)
    then show ?thesis using False g ends_with_append by simp
  qed
qed

theorem excerpt_bound_witness:
  "(0::int) \<le> 3
   \<and> int (length (generateExcerpt (asc ''ab cd'') 3)) \<le> 3 + 3
   \<and> generateExcerpt (asc ''ab cd'') 3 = asc ''ab...''
   \<and> generateExcerpt (asc ''ab'') 3 = asc ''ab''"
  using excerpt_bound [of 3 "asc ''ab cd''"] excerpt_bound [of 3 "asc ''ab''"]
  by (simp add: eval_defs)

text \<open>
  The claim as worded fails in three places: the truncated text is trimmed again, so fewer
  than \<open>N\<close> code units may precede the dots; a short content that itself ends with three
  dots is returned unchanged; and a negative bound gives the three dots alone.
\<close>

theorem excerpt_counterexample:
  "generateExcerpt (asc ''ab cd'') 3 = asc ''ab...''
   \<and> generateExcerpt (asc ''ab cd'') 3 \<noteq> take 3 (asc ''ab cd'') @ asc ''...''
   \<and> ends_with (generateExcerpt (asc ''...'') 5) (asc ''...'')
   \<and> \<not> 5 < int (length (excerpt_cleaned (asc ''...'')))
   \<and> \<not> int (length (generateExcerpt (asc ''a'') (- 1))) \<le> - 1 + 3"
  by (simp add: eval_defs ends_with_def)

section \<open>List items\<close>

lemma ws_star_no_space: "s = [] \<or> \<not> is_space (hd s) \<Longrightarrow> ws_star k s = k s"
  by (cases s) auto

lemma ws_star_greedy:
  "list_all is_space ws \<Longrightarrow> rest = [] \<or> \<not> is_space (hd rest) \<Longrightarrow> k rest = Some r
   \<Longrightarrow> ws_star k (ws @ rest) = Some r"
  by (induction ws) (auto simp: ws_star_no_space)

lemma dot_plus_capture_all:
  "t \<noteq> [] \<Longrightarrow> list_all not_terminator t \<Longrightarrow> dot_plus_capture t = Some t"
proof -
  assume a: "t \<noteq> []" "list_all not_terminator t"
  then have tk: "takeWhile not_terminator t = t" by (simp add: list_all_iff)
  show ?thesis unfolding dot_plus_capture_def Let_def tk using a(1) by simp
qed

lemma trim_not_empty: "t \<noteq> [] \<Longrightarrow> \<not> is_space (hd t) \<Longrightarrow> trim t \<noteq> []"
proof -
  assume a: "t \<noteq> []" "\<not> is_space (hd t)"
  then have d: "dropWhile is_space t = t" by (cases t) auto
  have "\<exists>c\<in>set (rev t). \<not> is_space c" using a by (cases t) auto
  then have "dropWhile is_space (rev t) \<noteq> []" by (simp add: dropWhile_eq_Nil_conv)
  then show ?thesis by (simp add: trim_def d)
qed

lemma plain_item_match:
  assumes "plain_item ll"
  shows "list_item_match (render_line ll) = Some (ll_text ll)"
proof -
  let ?t = "ll_text ll"
  from assms have t: "?t \<noteq> []" "list_all not_terminator ?t" "\<not> is_space (hd ?t)"
    and sp: "ll_space ll \<noteq> []" "list_all is_space (ll_space ll)"
    and gap: "list_all is_space (ll_gap ll)"
    and m: "ll_marker ll = 45 \<or> ll_marker ll = 42"
    by (auto simp: plain_item_def)
  obtain w ws where w: "ll_space ll = w # ws" "is_space w" "list_all is_space ws"
    using sp by (cases "ll_space ll") auto
  have cap: "ws_star dot_plus_capture (ll_gap ll @ ?t) = Some ?t"
    using ws_star_greedy [OF gap, of ?t dot_plus_capture ?t] t dot_plus_capture_all by simp
  let ?K = "opt (\<lambda>d. d = 91) (opt (\<lambda>d. d = 120 \<or> d = 88 \<or> d = 32)
              (opt (\<lambda>d. d = 93) (ws_star dot_plus_capture)))"
  have K: "?K (ll_checkbox ll @ ll_gap ll @ ?t) = Some ?t"
    and ns: "\<not> is_space (hd (ll_checkbox ll @ ll_gap ll @ ?t))"
  proof -
    from assms consider (box) "checkbox_text (ll_checkbox ll)"
      | (nobox) "ll_checkbox ll = []" "ll_gap ll = []" "hd ?t \<noteq> 91" "hd ?t \<noteq> 120"
          "hd ?t \<noteq> 88" "hd ?t \<noteq> 93"
      by (auto simp: plain_item_def)
    then have "?K (ll_checkbox ll @ ll_gap ll @ ?t) = Some ?t
      \<and> \<not> is_space (hd (ll_checkbox ll @ ll_gap ll @ ?t))"
    proof cases
      case box
      then show ?thesis using cap
        by (auto simp: checkbox_text_def asc_def is_space_def)
    next
      case nobox
      obtain c cs where c: "?t = c # cs" using t by (cases ?t) auto
      have "c \<noteq> 32" using t c by (auto simp: is_space_def)
      then show ?thesis using nobox cap t c by (simp add: ws_star_no_space)
    qed
    then show "?K (ll_checkbox ll @ ll_gap ll @ ?t) = Some ?t"
      and "\<not> is_space (hd (ll_checkbox ll @ ll_gap ll @ ?t))" by simp_all
  qed
  have "ws_star ?K (ws @ ll_checkbox ll @ ll_gap ll @ ?t) = Some ?t"
    using ws_star_greedy [OF w(3), of "ll_checkbox ll @ ll_gap ll @ ?t" ?K ?t] K ns by simp
  then show ?thesis using m w by (auto simp: list_item_match_def render_line_def)
qed

lemma items_loop_plain:
  "list_all plain_item items \<Longrightarrow>
   items_loop (map render_line items) = map (\<lambda>ll. trim (ll_text ll)) items"
proof (induction items)
  case Nil
  then show ?case by simp
next
  case (Cons ll items)
  then have p: "plain_item ll" by simp
  then have "trim (ll_text ll) \<noteq> []" by (simp add: plain_item_def trim_not_empty)
  then show ?case using Cons plain_item_match [OF p] by simp
qed

lemma opens_own_heading: "opens_section cf (asc ''Tasks'') (asc ''## Tasks'')"
  by (simp add: opens_section_def asc_def is_space_def)

lemma example_section:
  "extractSection rt example_tasks (asc ''Tasks'')
   = asc ''- Task 1'' @ [10] @ asc ''- [ ] Unchecked'' @ [10] @ asc ''- [x] Checked''"
proof -
  have s: "split_nl example_tasks
    = [asc ''## Tasks'', asc ''- Task 1'', asc ''- [ ] Unchecked'', asc ''- [x] Checked'']"
    by (simp add: example_tasks_def asc_def)
  have n: "\<not> opens_section cf t (45 # l)" for cf t l
    by (simp add: opens_section_def)
  have h: "\<not> heading_line (45 # l)" for l
    by (simp add: heading_line_def)
  have "extract_loop (canonicalize rt) (asc ''Tasks'') False (split_nl example_tasks)
    = [asc ''- Task 1'', asc ''- [ ] Unchecked'', asc ''- [x] Checked'']"
    unfolding s using opens_own_heading [of "canonicalize rt"]
    by (simp add: n h) (simp add: asc_def n h)
  then show ?thesis
    by (simp add: extractSection_def) (simp add: asc_def trim_def is_space_def)
qed

lemma items_loop_Cons: "items_loop (l # ls) = items_loop [l] @ items_loop ls"
  by (simp split: option.splits)

lemma items_loop_lines: "items_loop ls = concat (map (\<lambda>l. items_loop [l]) ls)"
proof (induction ls)
  case Nil
  then show ?case by simp
next
  case (Cons l ls)
  have "items_loop (l # ls) = items_loop [l] @ items_loop ls" by (rule items_loop_Cons)
  then show ?case using Cons by simp
qed

lemma items_loop_at_most_one: "length (items_loop [l]) \<le> 1"
  by (simp split: option.splits)

lemma plain_item_yield: "plain_item ll \<Longrightarrow> items_loop [render_line ll] = [trim (ll_text ll)]"
  using items_loop_plain [of "[ll]"] by simp

lemma not_list_line_match: "not_list_line l \<Longrightarrow> list_item_match l = None"
proof (cases l)
  case Nil
  then show ?thesis by (simp add: list_item_match_def)
next
  case (Cons c cs)
  assume "not_list_line l"
  then have "\<not> (c = 45 \<or> c = 42) \<or> cs = [] \<or> \<not> is_space (hd cs)"
    using Cons by (simp add: not_list_line_def)
  then show ?thesis using Cons by (cases cs) (auto simp: list_item_match_def)
qed

lemma not_list_line_yield: "not_list_line l \<Longrightarrow> items_loop [l] = []"
  by (simp add: not_list_line_match)

lemma items_loop_section:
  "list_all well_formed_line es \<Longrightarrow>
   items_loop (map render_section_line es) = concat (map line_items es)"
proof (induction es)
  case Nil
  then show ?case by simp
next
  case (Cons e es)
  then have ih: "items_loop (map render_section_line es) = concat (map line_items es)" by simp
  have "items_loop [render_section_line e] = line_items e"
    using Cons.prems
    by (cases e) (simp_all add: plain_item_yield not_list_line_yield del: items_loop.simps)
  then show ?case
    using items_loop_Cons [of "render_section_line e" "map render_section_line es"] ih by simp
qed

text \<open>
  C8, as the code has it. For every body and title the result is the concatenation, in
  the order of the section's lines and with nothing removed, of what each line of the
  section yields by itself, and a line yields at most one item. A list line made of a
  marker \<open>-\<close> or \<open>*\<close>, at least one white-space character, an optional complete checkbox
  \<open>[ ]\<close>, \<open>[x]\<close> or \<open>[X]\<close> with any white space after it, and a text without line
  terminator that begins with a character that is not white space and (when there is no
  checkbox) not \<open>x\<close>, \<open>X\<close> or a bracket, yields exactly its text, trimmed, whatever the
  checkbox state. A line that does not begin with a marker followed by a white-space
  character, such as a blank line, a line of prose or \<open>-Task\<close>, yields nothing. So a
  section whose lines are of these two kinds gives the trimmed texts of its list lines,
  in document order, repetitions included. The section of the example gives exactly
  Task 1, Unchecked, Checked, for every runtime.
\<close>

theorem list_items_in_order:
  "extractListItems rt body title
     = concat (map (\<lambda>l. items_loop [l]) (split_nl (extractSection rt body title)))
   \<and> length (items_loop [l]) \<le> 1
   \<and> (plain_item ll \<longrightarrow> items_loop [render_line ll] = [trim (ll_text ll)])
   \<and> (not_list_line l \<longrightarrow> items_loop [l] = [])
   \<and> (split_nl (extractSection rt body title) = map render_section_line es
        \<and> list_all well_formed_line es
      \<longrightarrow> extractListItems rt body title = concat (map line_items es))
   \<and> extractListItems rt example_tasks (asc ''Tasks'')
       = [asc ''Task 1'', asc ''Unchecked'', asc ''Checked'']"
proof -
  have a: "extractListItems rt body title
     = concat (map (\<lambda>l. items_loop [l]) (split_nl (extractSection rt body title)))"
    unfolding extractListItems_def by (rule items_loop_lines)
  have b: "split_nl (extractSection rt body title) = map render_section_line es
        \<and> list_all well_formed_line es
      \<longrightarrow> extractListItems rt body title = concat (map line_items es)"
    by (simp add: extractListItems_def items_loop_section)
  have c: "extractListItems rt example_tasks (asc ''Tasks'')
       = [asc ''Task 1'', asc ''Unchecked'', asc ''Checked'']"
    unfolding extractListItems_def example_section
    by (simp add: asc_def list_item_match_def dot_plus_capture_def not_terminator_def
        is_line_terminator_def is_space_def trim_def)
  show ?thesis
    using a b c items_loop_at_most_one [of l] plain_item_yield [of ll] not_list_line_yield [of l]
    by blast
qed

theorem list_items_in_order_witness:
  "plain_item \<lparr> ll_marker = 42, ll_space = asc '' '', ll_checkbox = asc ''[X]'', ll_gap = asc '' '',
                ll_text = asc ''Checked '' \<rparr>
   \<and> items_loop [asc ''* [X] Checked ''] = [asc ''Checked'']
   \<and> not_list_line (asc ''note'')
   \<and> items_loop [asc ''note''] = []
   \<and> split_nl (extractSection basic_runtime example_body (asc ''Tasks''))
       = map render_section_line example_entries
   \<and> list_all well_formed_line example_entries
   \<and> extractListItems basic_runtime example_body (asc ''Tasks'')
       = [asc ''Task 1'', asc ''Unchecked'', asc ''Checked'', asc ''Task 1'']"
proof -
  let ?ll = "\<lparr> ll_marker = 42, ll_space = asc '' '', ll_checkbox = asc ''[X]'', ll_gap = asc '' '',
                ll_text = asc ''Checked '' \<rparr>"
  have a: "split_nl (extractSection basic_runtime example_body (asc ''Tasks''))
    = map render_section_line example_entries"
    by (simp add: eval_defs example_body_def example_entries_def render_line_def)
  have b: "list_all well_formed_line example_entries"
    by (simp add: example_entries_def plain_item_def not_list_line_def checkbox_text_def asc_def
        is_space_def not_terminator_def is_line_terminator_def)
  have c: "concat (map line_items example_entries)
    = [asc ''Task 1'', asc ''Unchecked'', asc ''Checked'', asc ''Task 1'']"
    by (simp add: example_entries_def asc_def trim_def is_space_def)
  have d: "plain_item ?ll"
    by (simp add: plain_item_def checkbox_text_def asc_def is_space_def not_terminator_def
        is_line_terminator_def)
  have e: "not_list_line (asc ''note'')"
    by (simp add: not_list_line_def asc_def)
  have r: "render_line ?ll = asc ''* [X] Checked ''" "trim (ll_text ?ll) = asc ''Checked''"
    by (simp_all add: render_line_def asc_def trim_def is_space_def)
  note t = list_items_in_order [where rt = basic_runtime and body = example_body
      and title = "asc ''Tasks''" and l = "asc ''note''" and ll = ?ll and es = example_entries]
  from t d have "items_loop [render_line ?ll] = [trim (ll_text ?ll)]" by blast
  then have f: "items_loop [asc ''* [X] Checked ''] = [asc ''Checked'']" unfolding r .
  from t e have g: "items_loop [asc ''note''] = []" by blast
  from t a b have "extractListItems basic_runtime example_body (asc ''Tasks'')
    = concat (map line_items example_entries)" by blast
  then show ?thesis using a b c d e f g by simp
qed

text \<open>
  The claim as worded fails on the code: the source's pattern wants white space after
  the marker, so \<open>-Task\<close> is no item, and it trims the captured text, so the item of
  \<open>- a \<close> is \<open>a\<close>; the specification's pattern gives \<open>Task\<close> and \<open>a \<close>.
\<close>

theorem list_items_counterexample:
  "extractListItems basic_runtime (asc ''# T'' @ [10] @ asc ''-Task'') (asc ''T'') = []
   \<and> spec_extractListItems basic_runtime (asc ''# T'' @ [10] @ asc ''-Task'') (asc ''T'') = [asc ''Task'']
   \<and> extractListItems basic_runtime (asc ''# T'' @ [10] @ asc ''- a '' @ [10] @ asc ''- b'') (asc ''T'')
        = [asc ''a'', asc ''b'']
   \<and> spec_extractListItems basic_runtime (asc ''# T'' @ [10] @ asc ''- a '' @ [10] @ asc ''- b'') (asc ''T'')
        = [asc ''a '', asc ''b'']"
  by (simp add: eval_defs spec_extractListItems_def spec_list_item_match_def checkbox_then_def
      List.map_filter_simps)

text \<open>The source's pattern also takes a leading \<open>x\<close> or \<open>X\<close> of an item text for a checkbox
  mark: the item of \<open>- xylophone\<close> is \<open>ylophone\<close>.\<close>

lemma list_item_leading_x:
  "extractListItems basic_runtime (asc ''# T'' @ [10] @ asc ''- xylophone'') (asc ''T'')
     = [asc ''ylophone'']"
  by (simp add: eval_defs)

section \<open>Section extraction\<close>

lemma hash_plus_iff:
  "hash_plus k l \<noteq> None \<longleftrightarrow> (\<exists>n rest. 0 < n \<and> l = replicate n 35 @ rest \<and> k rest \<noteq> None)"
proof (induction l)
  case Nil
  then show ?case by simp
next
  case (Cons c cs)
  show ?case
  proof (cases "c = 35")
    case False
    then show ?thesis by (auto simp: Cons_eq_append_conv dest: gr0_implies_Suc)
  next
    case True
    show ?thesis
    proof
      assume "hash_plus k (c # cs) \<noteq> None"
      then consider "hash_plus k cs \<noteq> None" | "k cs \<noteq> None"
        using True by (auto split: option.splits)
      then show "\<exists>n rest. 0 < n \<and> c # cs = replicate n 35 @ rest \<and> k rest \<noteq> None"
      proof cases
        case 1
        then obtain n rest where "0 < n" "cs = replicate n 35 @ rest" "k rest \<noteq> None"
          using Cons.IH by blast
        then have "0 < Suc n \<and> c # cs = replicate (Suc n) 35 @ rest \<and> k rest \<noteq> None"
          using True by simp
        then show ?thesis by blast
      next
        case 2
        then have "0 < Suc 0 \<and> c # cs = replicate (Suc 0) 35 @ cs \<and> k cs \<noteq> None"
          using True by simp
        then show ?thesis by blast
      qed
    next
      assume "\<exists>n rest. 0 < n \<and> c # cs = replicate n 35 @ rest \<and> k rest \<noteq> None"
      then obtain n rest where n: "0 < n" "c # cs = replicate n 35 @ rest" "k rest \<noteq> None"
        by blast
      then obtain m where m: "n = Suc m" by (cases n) auto
      show "hash_plus k (c # cs) \<noteq> None"
      proof (cases m)
        case 0
        then have "cs = rest" using n m by simp
        then show ?thesis using n True by (auto split: option.splits)
      next
        case (Suc j)
        then have "cs = replicate (Suc j) 35 @ rest" using n m by simp
        then have "hash_plus k cs \<noteq> None" using Cons.IH n(3) by blast
        then show ?thesis using True by (auto split: option.splits)
      qed
    qed
  qed
qed

lemma ws_star_iff:
  "ws_star k s \<noteq> None \<longleftrightarrow> (\<exists>ws rest. s = ws @ rest \<and> list_all is_space ws \<and> k rest \<noteq> None)"
proof (induction s)
  case Nil
  then show ?case by auto
next
  case (Cons c cs)
  show ?case
  proof
    assume a: "ws_star k (c # cs) \<noteq> None"
    show "\<exists>ws rest. c # cs = ws @ rest \<and> list_all is_space ws \<and> k rest \<noteq> None"
    proof (cases "is_space c \<and> ws_star k cs \<noteq> None")
      case True
      then obtain ws rest where "cs = ws @ rest" "list_all is_space ws" "k rest \<noteq> None"
        using Cons.IH by blast
      then have "c # cs = (c # ws) @ rest \<and> list_all is_space (c # ws) \<and> k rest \<noteq> None"
        using True by simp
      then show ?thesis by blast
    next
      case False
      then have "k (c # cs) \<noteq> None" using a by (auto split: if_splits option.splits)
      then have "c # cs = [] @ c # cs \<and> list_all is_space [] \<and> k (c # cs) \<noteq> None" by simp
      then show ?thesis by blast
    qed
  next
    assume "\<exists>ws rest. c # cs = ws @ rest \<and> list_all is_space ws \<and> k rest \<noteq> None"
    then obtain ws rest where w: "c # cs = ws @ rest" "list_all is_space ws" "k rest \<noteq> None"
      by blast
    show "ws_star k (c # cs) \<noteq> None"
    proof (cases ws)
      case Nil
      then show ?thesis using w by (auto split: option.splits)
    next
      case (Cons d ds)
      then have "cs = ds @ rest" "list_all is_space ds" "is_space c" using w by auto
      then have "ws_star k cs \<noteq> None" using Cons.IH w(3) by blast
      then show ?thesis using \<open>is_space c\<close> by (auto split: option.splits)
    qed
  qed
qed

lemma literal_ci_iff:
  "literal_ci cf t s \<noteq> None \<longleftrightarrow> length t \<le> length s \<and> map cf (take (length t) s) = map cf t"
  by (induction cf t s rule: literal_ci.induct) auto

lemma opens_section_iff:
  "opens_section cf title l \<longleftrightarrow>
     (\<exists>n ws rest. 0 < n \<and> l = replicate n 35 @ ws @ rest \<and> list_all is_space ws
        \<and> length title \<le> length rest \<and> map cf (take (length title) rest) = map cf title)"
  unfolding opens_section_def hash_plus_iff ws_star_iff literal_ci_iff by blast

lemma ws_plus_accept_iff: "ws_plus accept s \<noteq> None \<longleftrightarrow> (\<exists>c rest. s = c # rest \<and> is_space c)"
proof -
  have "ws_star accept r \<noteq> None" for r
    unfolding ws_star_iff by (rule exI [where x = "[]"]) (simp add: accept_def)
  then show ?thesis by (cases s) auto
qed

lemma heading_line_iff:
  "heading_line l \<longleftrightarrow> (\<exists>n c rest. 0 < n \<and> l = replicate n 35 @ c # rest \<and> is_space c)"
  unfolding heading_line_def hash_plus_iff ws_plus_accept_iff by blast

lemma extract_loop_none:
  "list_all (\<lambda>l. \<not> opens_section cf t l) ls \<Longrightarrow> extract_loop cf t False ls = []"
  by (induction ls) auto

lemma extract_loop_skip:
  "list_all (\<lambda>l. \<not> opens_section cf t l) pre \<Longrightarrow>
   extract_loop cf t False (pre @ ls) = extract_loop cf t False ls"
  by (induction pre) auto

lemma extract_loop_interior:
  "list_all (\<lambda>l. \<not> opens_section cf t l \<and> \<not> heading_line l) mid \<Longrightarrow>
   extract_loop cf t True (mid @ ls) = mid @ extract_loop cf t True ls"
  by (induction mid) auto

lemma extract_loop_stop:
  "post = [] \<or> (heading_line (hd post) \<and> \<not> opens_section cf t (hd post)) \<Longrightarrow>
   extract_loop cf t True post = []"
  by (cases post) auto

lemma extract_loop_section:
  assumes "list_all (\<lambda>l. \<not> opens_section cf t l) pre"
    and "opens_section cf t h"
    and "list_all (\<lambda>l. \<not> opens_section cf t l \<and> \<not> heading_line l) mid"
    and "post = [] \<or> (heading_line (hd post) \<and> \<not> opens_section cf t (hd post))"
  shows "extract_loop cf t False (pre @ h # mid @ post) = mid"
  using assms
  by (simp add: extract_loop_skip extract_loop_interior extract_loop_stop)

lemma trim_Nil: "trim [] = []"
  by (simp add: trim_def)

text \<open>
  C5, as the code has it. A line opens the section when it is a run of one or more \<open>#\<close>,
  any white space, and a text that begins with the title, compared case-insensitively
  (a prefix match, not an exact one); a line is a closing line when it is a run of \<open>#\<close>
  followed by at least one white-space character. For every body and title the result
  is empty when no line opens the section. Otherwise let \<open>h\<close> be the first opening line,
  \<open>mid\<close> the lines after \<open>h\<close> up to the first closing line after \<open>h\<close>, that line excluded,
  or up to the end of the body when no closing line follows. When no line of \<open>mid\<close> opens
  the section again and that first closing line, if there is one, does not open the
  section either, the result is the trimmed text of \<open>mid\<close>. Nothing is stated for a body
  in which the section is opened again, by a line of \<open>mid\<close> or by the closing line itself.
\<close>

theorem extractSection_contract:
  "(opens_section (canonicalize rt) title l \<longleftrightarrow>
      (\<exists>n ws rest. 0 < n \<and> l = replicate n 35 @ ws @ rest \<and> list_all is_space ws
         \<and> length title \<le> length rest
         \<and> map (canonicalize rt) (take (length title) rest) = map (canonicalize rt) title))
   \<and> (heading_line l \<longleftrightarrow> (\<exists>n c rest. 0 < n \<and> l = replicate n 35 @ c # rest \<and> is_space c))
   \<and> (list_all (\<lambda>l. \<not> opens_section (canonicalize rt) title l) (split_nl body)
        \<longrightarrow> extractSection rt body title = [])
   \<and> (split_nl body = pre @ h # mid @ post
        \<and> list_all (\<lambda>l. \<not> opens_section (canonicalize rt) title l) pre
        \<and> opens_section (canonicalize rt) title h
        \<and> list_all (\<lambda>l. \<not> opens_section (canonicalize rt) title l \<and> \<not> heading_line l) mid
        \<and> (post = [] \<or> (heading_line (hd post) \<and> \<not> opens_section (canonicalize rt) title (hd post)))
        \<longrightarrow> extractSection rt body title = trim (join_nl mid))"
  using opens_section_iff [of "canonicalize rt" title l] heading_line_iff [of l]
  by (auto simp: extractSection_def extract_loop_none extract_loop_section trim_Nil)

theorem extractSection_contract_witness:
  "split_nl example_sections = [asc ''intro''] @ asc ''##tasks today'' # [asc ''a'', asc '' b ''] @ [asc ''# Other'', asc ''c'']
   \<and> list_all (\<lambda>l. \<not> opens_section (canonicalize basic_runtime) (asc ''Tasks'') l) [asc ''intro'']
   \<and> opens_section (canonicalize basic_runtime) (asc ''Tasks'') (asc ''##tasks today'')
   \<and> list_all (\<lambda>l. \<not> opens_section (canonicalize basic_runtime) (asc ''Tasks'') l \<and> \<not> heading_line l)
        [asc ''a'', asc '' b '']
   \<and> heading_line (hd [asc ''# Other'', asc ''c''])
   \<and> \<not> opens_section (canonicalize basic_runtime) (asc ''Tasks'') (hd [asc ''# Other'', asc ''c''])
   \<and> extractSection basic_runtime example_sections (asc ''Tasks'') = asc ''a'' @ [10] @ asc '' b''
   \<and> list_all (\<lambda>l. \<not> opens_section (canonicalize basic_runtime) (asc ''Notes'') l) (split_nl example_sections)
   \<and> extractSection basic_runtime example_sections (asc ''Notes'') = []"
proof -
  have a: "split_nl example_sections
      = [asc ''intro''] @ asc ''##tasks today'' # [asc ''a'', asc '' b ''] @ [asc ''# Other'', asc ''c'']"
    by (simp add: example_sections_def asc_def)
  have b: "list_all (\<lambda>l. \<not> opens_section (canonicalize basic_runtime) (asc ''Tasks'') l) [asc ''intro'']"
    "opens_section (canonicalize basic_runtime) (asc ''Tasks'') (asc ''##tasks today'')"
    "list_all (\<lambda>l. \<not> opens_section (canonicalize basic_runtime) (asc ''Tasks'') l \<and> \<not> heading_line l)
        [asc ''a'', asc '' b '']"
    "heading_line (hd [asc ''# Other'', asc ''c''])"
    "\<not> opens_section (canonicalize basic_runtime) (asc ''Tasks'') (hd [asc ''# Other'', asc ''c''])"
    by (simp_all add: eval_defs)
  have c: "list_all (\<lambda>l. \<not> opens_section (canonicalize basic_runtime) (asc ''Notes'') l)
      (split_nl example_sections)"
    unfolding a by (simp add: eval_defs)
  have t: "trim (join_nl [asc ''a'', asc '' b '']) = asc ''a'' @ [10] @ asc '' b''"
    by (simp add: eval_defs)
  from extractSection_contract [of basic_runtime "asc ''Tasks''" "[]" example_sections
      "[asc ''intro'']" "asc ''##tasks today''" "[asc ''a'', asc '' b '']" "[asc ''# Other'', asc ''c'']"]
    a b
  have d: "extractSection basic_runtime example_sections (asc ''Tasks'')
      = trim (join_nl [asc ''a'', asc '' b ''])" by blast
  from extractSection_contract [of basic_runtime "asc ''Notes''" "[]" example_sections] c
  have e: "extractSection basic_runtime example_sections (asc ''Notes'') = []" by blast
  show ?thesis using a b c d e t by simp
qed

text \<open>
  The claim as worded fails on the code: a heading whose text only begins with the
  title opens the section, and a \<open>#\<close> line without white space after the run does not
  close it although such a line can open it.
\<close>

theorem extractSection_counterexample:
  "extractSection basic_runtime (asc ''## Tasks and more'' @ [10] @ asc ''x'') (asc ''Tasks'') = asc ''x''
   \<and> extractSection basic_runtime (asc ''#T'' @ [10] @ asc ''x'' @ [10] @ asc ''#Next'' @ [10] @ asc ''y'')
        (asc ''T'') = asc ''x'' @ [10] @ asc ''#Next'' @ [10] @ asc ''y''"
  by (simp add: eval_defs)

text \<open>A second opening line inside the section does not end it either: its own line is
  dropped and the lines after it are collected as well.\<close>

lemma extractSection_repeated_heading:
  "extractSection basic_runtime
     (asc ''# A'' @ [10] @ asc ''x'' @ [10] @ asc ''# A'' @ [10] @ asc ''y'' @ [10] @ asc ''# B'')
     (asc ''A'') = asc ''x'' @ [10] @ asc ''y''"
  by (simp add: eval_defs)

section \<open>The caller's array of daily logs\<close>

text \<open>
  C10. For every store, every reference \<open>dailies\<close> to an array of it and every weekly
  metadata, after \<open>aggregateDailiesToWeekly\<close> the caller's array, and every other array
  that was in the store, holds the same elements in the same order as before: the sort
  works on the copy. The result is that of the function on the array's elements.
\<close>

theorem aggregate_keeps_input:
  assumes "dailies < length st"
  shows "fst (aggregateDailiesToWeekly_store rt st dailies weekMeta) ! dailies = st ! dailies
    \<and> take (length st) (fst (aggregateDailiesToWeekly_store rt st dailies weekMeta)) = st
    \<and> snd (aggregateDailiesToWeekly_store rt st dailies weekMeta)
        = aggregateDailiesToWeekly rt (st ! dailies) weekMeta"
  using assms
  by (simp add: aggregateDailiesToWeekly_store_def array_spread_def array_sort_in_place_def
      aggregateDailiesToWeekly_def Let_def nth_append)

theorem aggregate_keeps_input_witness:
  "(0::nat) < length [[daily_13, daily_12]]
   \<and> fst (aggregateDailiesToWeekly_store basic_runtime [[daily_13, daily_12]] 0 week_03) ! 0
        = [daily_13, daily_12]
   \<and> fst (aggregateDailiesToWeekly_store basic_runtime [[daily_13, daily_12]] 0 week_03) ! 1
        = [daily_12, daily_13]"
proof -
  have c: "compareDailies basic_runtime daily_13 daily_12 = 1"
    by (simp add: compareDailies_def basic_runtime_def daily_12_def daily_13_def asc_def)
  have "fst (aggregateDailiesToWeekly_store basic_runtime [[daily_13, daily_12]] 0 week_03) ! 1
        = [daily_12, daily_13]"
    by (simp add: aggregateDailiesToWeekly_store_def array_spread_def array_sort_in_place_def
        array_sort_def c)
  then show ?thesis
    using aggregate_keeps_input [of 0 "[[daily_13, daily_12]]" basic_runtime week_03] by simp
qed

section \<open>Lines of a generated report\<close>

lemma split_nl_not_Nil: "split_nl s \<noteq> []"
  by (induction s) (auto split: list.splits)

lemma split_nl_append_nl: "split_nl (a @ 10 # b) = split_nl a @ split_nl b"
proof (induction a)
  case Nil
  then show ?case by simp
next
  case (Cons c a)
  then show ?case using split_nl_not_Nil [of a] by (cases "split_nl a") auto
qed

lemma split_nl_join_nl: "es \<noteq> [] \<Longrightarrow> split_nl (join_nl es) = concat (map split_nl es)"
proof (induction es rule: join_nl.induct)
  case 1
  then show ?case by simp
next
  case (2 l)
  then show ?case by simp
next
  case (3 l m ls)
  then show ?case by (simp add: split_nl_append_nl)
qed

lemma filter_single:
  "length (filter P (pre @ h # rest)) = 1 \<Longrightarrow> P h \<Longrightarrow>
   list_all (\<lambda>l. \<not> P l) pre \<and> list_all (\<lambda>l. \<not> P l) rest"
  by (auto simp: list_all_iff filter_empty_conv)

lemma split_nl_plain [simp]:
  "split_nl heading_summary = [heading_summary]"
  "split_nl heading_highlights = [heading_highlights]"
  "split_nl heading_projects = [heading_projects]"
  "split_nl heading_dailies = [heading_dailies]"
  "split_nl heading_risks = [heading_risks]"
  "split_nl heading_plan = [heading_plan]"
  "split_nl (asc ''-'') = [asc ''-'']"
  by (simp_all add: heading_summary_def heading_highlights_def heading_projects_def
      heading_dailies_def heading_risks_def heading_plan_def asc_def)

lemma generated_lines:
  "\<exists>X. split_nl (generateWeeklyContent weekMeta projects highlights dailySummaries)
     = (split_nl (title_line weekMeta) @ [[]]) @ heading_summary # [[], []]
       @ (heading_highlights # X)
       @ heading_risks # [asc ''-'', []] @ heading_plan # [asc ''-'', []] @ []"
proof -
  let ?hl = "if 0 < length highlights then concat (map highlight_lines highlights)
             else [no_highlights, []]"
  let ?pr = "if 0 < length projects then concat (map project_lines projects)
             else [no_projects, []]"
  let ?ds = "if 0 < length dailySummaries then concat (map summary_lines dailySummaries)
             else [no_dailies, []]"
  let ?X = "[[]] @ concat (map split_nl ?hl) @ [heading_projects, []] @ concat (map split_nl ?pr)
            @ [heading_dailies, []] @ concat (map split_nl ?ds)"
  let ?es = "[title_line weekMeta, [], heading_summary, [], [], heading_highlights, []]
        @ ?hl @ [heading_projects, []] @ ?pr @ [heading_dailies, []] @ ?ds
        @ [heading_risks, asc ''-'', [], heading_plan, asc ''-'', []]"
  have g: "generateWeeklyContent weekMeta projects highlights dailySummaries = join_nl ?es"
    unfolding generateWeeklyContent_def title_line_def ..
  have "split_nl (join_nl ?es) = concat (map split_nl ?es)"
    by (rule split_nl_join_nl) simp
  also have "\<dots> = (split_nl (title_line weekMeta) @ [[]]) @ heading_summary # [[], []]
       @ (heading_highlights # ?X)
       @ heading_risks # [asc ''-'', []] @ heading_plan # [asc ''-'', []] @ []"
    by simp
  finally show ?thesis unfolding g by blast
qed

lemma opens_own:
  "opens_section cf title_summary heading_summary"
  "opens_section cf title_summary_full heading_summary"
  "opens_section cf title_risks heading_risks"
  "opens_section cf title_plan heading_plan"
  by (simp_all add: opens_section_def heading_summary_def heading_risks_def heading_plan_def
      title_summary_def title_summary_full_def title_risks_def title_plan_def asc_def is_space_def)

lemma heading_line_plain:
  "heading_line heading_summary" "heading_line heading_highlights" "heading_line heading_risks"
  "heading_line heading_plan" "\<not> heading_line []" "\<not> heading_line (asc ''-'')"
  by (simp_all add: heading_line_def heading_summary_def heading_highlights_def heading_risks_def
      heading_plan_def asc_def is_space_def accept_def)

lemma not_opens_plain: "\<not> opens_section cf t []" "\<not> opens_section cf t (asc ''-'')"
  by (simp_all add: opens_section_def asc_def)

lemma trim_placeholders:
  "trim (join_nl [[], []]) = []" "trim (join_nl [asc ''-'', []]) = asc ''-''"
  by (simp_all add: trim_def asc_def is_space_def)

lemma extract_generated:
  assumes "sole_opener rt (generateWeeklyContent weekMeta projects highlights dailySummaries) title_summary"
    and "sole_opener rt (generateWeeklyContent weekMeta projects highlights dailySummaries) title_risks"
    and "sole_opener rt (generateWeeklyContent weekMeta projects highlights dailySummaries) title_plan"
  shows "extractSection rt (generateWeeklyContent weekMeta projects highlights dailySummaries) title_summary = []"
    and "extractSection rt (generateWeeklyContent weekMeta projects highlights dailySummaries) title_risks = asc ''-''"
    and "extractSection rt (generateWeeklyContent weekMeta projects highlights dailySummaries) title_plan = asc ''-''"
proof -
  let ?c = "generateWeeklyContent weekMeta projects highlights dailySummaries"
  let ?cf = "canonicalize rt"
  obtain X where L: "split_nl ?c
     = (split_nl (title_line weekMeta) @ [[]]) @ heading_summary # [[], []]
       @ (heading_highlights # X)
       @ heading_risks # [asc ''-'', []] @ heading_plan # [asc ''-'', []] @ []"
    using generated_lines by blast
  let ?pre1 = "split_nl (title_line weekMeta) @ [[]]"
  let ?post1 = "(heading_highlights # X) @ heading_risks # [asc ''-'', []] @ heading_plan # [asc ''-'', []] @ []"
  have L1: "split_nl ?c = ?pre1 @ heading_summary # [[], []] @ ?post1"
    using L by simp
  have "length (filter (opens_section ?cf title_summary) (?pre1 @ heading_summary # ([[], []] @ ?post1))) = 1"
    using assms(1) unfolding sole_opener_def L1 by simp
  from filter_single [OF this opens_own(1)]
  have s: "list_all (\<lambda>l. \<not> opens_section ?cf title_summary l) ?pre1"
    "\<not> opens_section ?cf title_summary heading_highlights" by simp_all
  have "extract_loop ?cf title_summary False (?pre1 @ heading_summary # [[], []] @ ?post1) = [[], []]"
    by (rule extract_loop_section) (use s in \<open>simp_all add: opens_own not_opens_plain heading_line_plain\<close>)
  then show "extractSection rt ?c title_summary = []"
    unfolding extractSection_def L1 by (simp only: trim_placeholders)
  let ?pre2 = "?pre1 @ heading_summary # [[], []] @ (heading_highlights # X)"
  let ?post2 = "heading_plan # [asc ''-'', []]"
  have L2: "split_nl ?c = ?pre2 @ heading_risks # [asc ''-'', []] @ ?post2"
    using L by simp
  have "length (filter (opens_section ?cf title_risks) (?pre2 @ heading_risks # ([asc ''-'', []] @ ?post2))) = 1"
    using assms(2) unfolding sole_opener_def L2 by simp
  from filter_single [OF this opens_own(3)]
  have r: "list_all (\<lambda>l. \<not> opens_section ?cf title_risks l) ?pre2"
    "\<not> opens_section ?cf title_risks heading_plan" by simp_all
  have "extract_loop ?cf title_risks False (?pre2 @ heading_risks # [asc ''-'', []] @ ?post2) = [asc ''-'', []]"
    by (rule extract_loop_section) (use r in \<open>simp_all add: opens_own not_opens_plain heading_line_plain\<close>)
  then show "extractSection rt ?c title_risks = asc ''-''"
    unfolding extractSection_def L2 by (simp only: trim_placeholders)
  let ?pre3 = "?pre2 @ heading_risks # [asc ''-'', []]"
  have L3: "split_nl ?c = ?pre3 @ heading_plan # [asc ''-'', []] @ []"
    using L by simp
  have "length (filter (opens_section ?cf title_plan) (?pre3 @ heading_plan # ([asc ''-'', []] @ []))) = 1"
    using assms(3) unfolding sole_opener_def L3 by simp
  from filter_single [OF this opens_own(4)]
  have p: "list_all (\<lambda>l. \<not> opens_section ?cf title_plan l) ?pre3" by simp
  have "extract_loop ?cf title_plan False (?pre3 @ heading_plan # [asc ''-'', []] @ []) = [asc ''-'', []]"
    by (rule extract_loop_section) (use p in \<open>simp_all add: opens_own not_opens_plain heading_line_plain\<close>)
  then show "extractSection rt ?c title_plan = asc ''-''"
    unfolding extractSection_def L3 by (simp only: trim_placeholders)
qed

lemma aggregate_content:
  "\<exists>projects highlights dailySummaries.
     wa_content (aggregateDailiesToWeekly rt dailies weekMeta)
       = generateWeeklyContent weekMeta projects highlights dailySummaries"
  by (simp add: aggregateDailiesToWeekly_def aggregateSorted_def Let_def) blast

lemmas agg_defs = aggregateDailiesToWeekly_def aggregateSorted_def array_sort_def compareDailies_def
  collectProjects_def set_add_def createDailySummary_def extractHighlightContent_def
  generateWeeklyContent_def highlight_lines_def project_lines_def summary_lines_def
  heading_summary_def heading_highlights_def heading_projects_def heading_dailies_def
  heading_risks_def heading_plan_def no_highlights_def no_projects_def no_dailies_def
  no_content_def title_summary_def title_summary_full_def title_risks_def title_plan_def
  title_completed_def title_progress_def mergeWeeklyContent_def replaceSection_def Let_def

section \<open>Idempotence of the merge\<close>

text \<open>
  C1, as the code has it. For every runtime, every list of daily logs and every weekly
  metadata: when each of the three user-editable titles (Summary, Risks and Blockers,
  Next Week Plan) has a sole opener in the generated body, that is, no week identifier,
  date, project name, highlight text or excerpt brings in a further line that opens one
  of these sections, merging the generated body with its own aggregation returns the
  body unchanged, and so does merging a second time.
\<close>

theorem merge_idempotent:
  assumes "sole_opener rt (wa_content (aggregateDailiesToWeekly rt dailies weekMeta)) title_summary"
    and "sole_opener rt (wa_content (aggregateDailiesToWeekly rt dailies weekMeta)) title_risks"
    and "sole_opener rt (wa_content (aggregateDailiesToWeekly rt dailies weekMeta)) title_plan"
  shows "mergeWeeklyContent rt (wa_content (aggregateDailiesToWeekly rt dailies weekMeta))
           (aggregateDailiesToWeekly rt dailies weekMeta)
         = wa_content (aggregateDailiesToWeekly rt dailies weekMeta)
    \<and> mergeWeeklyContent rt
         (mergeWeeklyContent rt (wa_content (aggregateDailiesToWeekly rt dailies weekMeta))
            (aggregateDailiesToWeekly rt dailies weekMeta))
         (aggregateDailiesToWeekly rt dailies weekMeta)
       = wa_content (aggregateDailiesToWeekly rt dailies weekMeta)"
proof -
  let ?A = "aggregateDailiesToWeekly rt dailies weekMeta"
  obtain projects highlights dailySummaries
    where c: "wa_content ?A = generateWeeklyContent weekMeta projects highlights dailySummaries"
    using aggregate_content by blast
  have e: "extractSection rt (wa_content ?A) title_summary = []"
    "extractSection rt (wa_content ?A) title_risks = asc ''-''"
    "extractSection rt (wa_content ?A) title_plan = asc ''-''"
    using extract_generated [of rt weekMeta projects highlights dailySummaries] assms
    unfolding c by simp_all
  have m: "mergeWeeklyContent rt (wa_content ?A) ?A = wa_content ?A"
    by (simp add: mergeWeeklyContent_def Let_def e)
  show ?thesis by (simp add: m)
qed

theorem merge_idempotent_witness:
  "sole_opener basic_runtime (wa_content (aggregateDailiesToWeekly basic_runtime [daily_13, daily_12] week_03)) title_summary
   \<and> sole_opener basic_runtime (wa_content (aggregateDailiesToWeekly basic_runtime [daily_13, daily_12] week_03)) title_risks
   \<and> sole_opener basic_runtime (wa_content (aggregateDailiesToWeekly basic_runtime [daily_13, daily_12] week_03)) title_plan
   \<and> mergeWeeklyContent basic_runtime (wa_content (aggregateDailiesToWeekly basic_runtime [daily_13, daily_12] week_03))
           (aggregateDailiesToWeekly basic_runtime [daily_13, daily_12] week_03)
         = wa_content (aggregateDailiesToWeekly basic_runtime [daily_13, daily_12] week_03)"
proof -
  let ?A = "aggregateDailiesToWeekly basic_runtime [daily_13, daily_12] week_03"
  have h: "sole_opener basic_runtime (wa_content ?A) title_summary"
    "sole_opener basic_runtime (wa_content ?A) title_risks"
    "sole_opener basic_runtime (wa_content ?A) title_plan"
    by (simp_all add: sole_opener_def agg_defs eval_defs daily_12_def daily_13_def week_03_def)
  show ?thesis using merge_idempotent [OF h] h by simp
qed

text \<open>
  The claim as worded fails on the code. A daily log whose text has the line
  \<open>#\<close> followed by the Next Week Plan title (a hashtag, which neither the excerpt nor the
  section scan takes for a heading) and then \<open>ship it\<close> puts a second opener of that
  section into the generated body; the merge then reads \<open>ship it\<close> as the user's plan and
  rewrites the body.
\<close>

theorem merge_idempotent_counterexample:
  "mergeWeeklyContent basic_runtime
     (wa_content (aggregateDailiesToWeekly basic_runtime [daily_hashtag] week_03))
     (aggregateDailiesToWeekly basic_runtime [daily_hashtag] week_03)
   \<noteq> wa_content (aggregateDailiesToWeekly basic_runtime [daily_hashtag] week_03)"
  by (simp add: agg_defs eval_defs daily_hashtag_def week_03_def)

section \<open>Lines that survive a replaced section\<close>

lemma split_nl_no_nl: "10 \<notin> set l \<Longrightarrow> split_nl l = [l]"
  by (induction l) auto

lemma split_nl_lines_no_nl: "l \<in> set (split_nl s) \<Longrightarrow> 10 \<notin> set l"
proof (induction s arbitrary: l)
  case Nil
  then show ?case by simp
next
  case (Cons c cs)
  then show ?case using split_nl_not_Nil [of cs]
    by (cases "split_nl cs") (auto split: if_splits)
qed

lemma split_nl_lines_subset: "l \<in> set (split_nl s) \<Longrightarrow> set l \<subseteq> set s"
proof (induction s arbitrary: l)
  case Nil
  then show ?case by simp
next
  case (Cons c cs)
  obtain a as where a: "split_nl cs = a # as"
    using split_nl_not_Nil [of cs] by (cases "split_nl cs") auto
  have ia: "set a \<subseteq> set cs" using Cons.IH [of a] a by simp
  have ias: "set m \<subseteq> set cs" if "m \<in> set as" for m using Cons.IH [of m] a that by simp
  show ?case
  proof (cases "c = 10")
    case True
    then have "l = [] \<or> l = a \<or> l \<in> set as" using Cons.prems a by auto
    then show ?thesis using ia ias by auto
  next
    case False
    then have "l = c # a \<or> l \<in> set as" using Cons.prems a by auto
    then show ?thesis using ia ias by auto
  qed
qed

lemma join_nl_split_nl: "join_nl (split_nl s) = s"
proof (induction s)
  case Nil
  then show ?case by simp
next
  case (Cons c cs)
  then show ?case using split_nl_not_Nil [of cs]
    by (cases "split_nl cs"; cases "tl (split_nl cs)") (auto split: if_splits)
qed

lemma join_nl_append:
  "xs \<noteq> [] \<Longrightarrow> join_nl (xs @ post) = join_nl xs @ (if post = [] then [] else 10 # join_nl post)"
proof (induction xs rule: join_nl.induct)
  case 1
  then show ?case by simp
next
  case (2 l)
  then show ?case by (cases post) auto
next
  case (3 l m ls)
  then show ?case by simp
qed

lemma includes_join_nl:
  assumes "xs \<noteq> []"
  shows "includes_str (join_nl (pre @ xs @ post)) (join_nl xs)"
proof (cases pre)
  case Nil
  have "join_nl (pre @ xs @ post) = [] @ join_nl xs @ (if post = [] then [] else 10 # join_nl post)"
    using Nil assms by (simp add: join_nl_append)
  then show ?thesis by (rule includes_strI)
next
  case (Cons p ps)
  have "pre \<noteq> []" using Cons by simp
  then have "join_nl (pre @ xs @ post) = join_nl pre @ 10 # join_nl (xs @ post)"
    using join_nl_append [of pre "xs @ post"] assms by simp
  also have "\<dots> = (join_nl pre @ [10]) @ join_nl xs @ (if post = [] then [] else 10 # join_nl post)"
    using assms by (simp add: join_nl_append)
  finally show ?thesis by (rule includes_strI)
qed

lemma includes_line: "l \<in> set (split_nl s) \<Longrightarrow> includes_str s l"
proof -
  assume "l \<in> set (split_nl s)"
  then obtain pre post where "split_nl s = pre @ [l] @ post"
    by (auto simp: in_set_conv_decomp)
  then have "includes_str (join_nl (split_nl s)) (join_nl [l])"
    using includes_join_nl [of "[l]" pre post] by simp
  then show ?thesis by (simp add: join_nl_split_nl)
qed

lemma includes_str_trans: "includes_str s t \<Longrightarrow> includes_str t u \<Longrightarrow> includes_str s u"
proof -
  assume "includes_str s t" "includes_str t u"
  then obtain p1 s1 p2 s2 where "s = p1 @ t @ s1" "t = p2 @ u @ s2"
    by (auto simp: includes_str_iff)
  then have "s = (p1 @ p2) @ u @ (s2 @ s1)" by simp
  then show ?thesis by (rule includes_strI)
qed

lemma replace_loop_prefix:
  "\<exists>R b'. replace_loop cf t new b (pre @ ls) = R @ replace_loop cf t new b' ls"
proof (induction pre arbitrary: b)
  case Nil
  have "replace_loop cf t new b ([] @ ls) = [] @ replace_loop cf t new b ls" by simp
  then show ?case by blast
next
  case (Cons p pre)
  show ?case
  proof (cases "opens_section cf t p")
    case True
    obtain R b' where "replace_loop cf t new True (pre @ ls) = R @ replace_loop cf t new b' ls"
      using Cons by blast
    then have "replace_loop cf t new b ((p # pre) @ ls)
        = (p # [] # new # R) @ replace_loop cf t new b' ls"
      using True by simp
    then show ?thesis by blast
  next
    case no: False
    show ?thesis
    proof (cases "b \<and> heading_line p")
      case True
      obtain R b' where "replace_loop cf t new False (pre @ ls) = R @ replace_loop cf t new b' ls"
        using Cons by blast
      then have "replace_loop cf t new b ((p # pre) @ ls) = (p # R) @ replace_loop cf t new b' ls"
        using no True by simp
      then show ?thesis by blast
    next
      case False
      obtain R b' where "replace_loop cf t new b (pre @ ls) = R @ replace_loop cf t new b' ls"
        using Cons by blast
      then have "replace_loop cf t new b ((p # pre) @ ls)
          = (if b then R else p # R) @ replace_loop cf t new b' ls"
        using no False by auto
      then show ?thesis by blast
    qed
  qed
qed

lemma replace_loop_keeps_heading:
  "l \<in> set ls \<Longrightarrow> heading_line l \<Longrightarrow> l \<in> set (replace_loop cf t new b ls)"
  by (induction ls arbitrary: b) (auto simp: Let_def)

lemma replaceSection_lines:
  "replace_loop (canonicalize rt) t new False (split_nl c) \<noteq> [] \<Longrightarrow>
   split_nl (replaceSection rt c t new)
     = concat (map split_nl (replace_loop (canonicalize rt) t new False (split_nl c)))"
  by (simp add: replaceSection_def split_nl_join_nl)

lemma replaceSection_keeps_heading:
  assumes "l \<in> set (split_nl c)" and "heading_line l"
  shows "l \<in> set (split_nl (replaceSection rt c t new))"
proof -
  let ?R = "replace_loop (canonicalize rt) t new False (split_nl c)"
  have m: "l \<in> set ?R" using assms by (rule replace_loop_keeps_heading)
  then have "?R \<noteq> []" by auto
  then have "split_nl (replaceSection rt c t new) = concat (map split_nl ?R)"
    by (rule replaceSection_lines)
  moreover have "split_nl l = [l]"
    using assms(1) by (simp add: split_nl_no_nl split_nl_lines_no_nl)
  ultimately show ?thesis using m by force
qed

text \<open>The block made of a heading, the blank line and a one-line text.\<close>

lemma replaceSection_splices:
  assumes "\<exists>pre post. split_nl c = pre @ h # post" and "opens_section (canonicalize rt) t h"
    and "10 \<notin> set s" and "10 \<notin> set h"
  shows "\<exists>pre post. split_nl (replaceSection rt c t s) = pre @ h # [] # s # post"
proof -
  let ?cf = "canonicalize rt"
  obtain pre post where L: "split_nl c = pre @ h # post" using assms(1) by blast
  obtain R b' where "replace_loop ?cf t s False (pre @ h # post)
      = R @ replace_loop ?cf t s b' (h # post)"
    using replace_loop_prefix by blast
  then have r: "replace_loop ?cf t s False (split_nl c)
      = R @ h # [] # s # replace_loop ?cf t s True post"
    using assms(2) L by simp
  then have "split_nl (replaceSection rt c t s)
      = concat (map split_nl (R @ h # [] # s # replace_loop ?cf t s True post))"
    using replaceSection_lines [of rt t s c] by simp
  also have "\<dots> = concat (map split_nl R) @ h # [] # s
      # concat (map split_nl (replace_loop ?cf t s True post))"
    using assms(3,4) by (simp add: split_nl_no_nl)
  finally show ?thesis by blast
qed

lemma replaceSection_keeps_block:
  assumes "\<exists>pre post. split_nl c = pre @ h # [] # s # post"
    and "heading_line h" and "\<not> opens_section (canonicalize rt) t h"
    and "10 \<notin> set s" and "10 \<notin> set h"
  shows "\<exists>pre post. split_nl (replaceSection rt c t new) = pre @ h # [] # s # post"
proof -
  let ?cf = "canonicalize rt"
  obtain pre post where L: "split_nl c = pre @ h # [] # s # post" using assms(1) by blast
  obtain R b' where p: "replace_loop ?cf t new False (pre @ h # [] # s # post)
      = R @ replace_loop ?cf t new b' (h # [] # s # post)"
    using replace_loop_prefix by blast
  have "\<exists>R'. replace_loop ?cf t new b' (h # [] # s # post) = h # [] # s # R'"
    using assms(2,3) by (simp add: Let_def not_opens_plain)
  then obtain R' where "replace_loop ?cf t new False (split_nl c) = R @ h # [] # s # R'"
    using p L by auto
  then have "split_nl (replaceSection rt c t new) = concat (map split_nl (R @ h # [] # s # R'))"
    using replaceSection_lines [of rt t new c] by simp
  also have "\<dots> = concat (map split_nl R) @ h # [] # s # concat (map split_nl R')"
    using assms(4,5) by (simp add: split_nl_no_nl)
  finally show ?thesis by blast
qed

section \<open>Edits survive a regeneration\<close>

lemma set_sort_insert: "set (sort_insert cmp x ys) = insert x (set ys)"
  by (induction ys) auto

lemma set_array_sort: "set (array_sort cmp xs) = set xs"
  unfolding array_sort_def by (induction xs) (auto simp: set_sort_insert)

lemma hd_split_nl_append:
  "10 \<notin> set a \<Longrightarrow> split_nl (a @ b) = (a @ hd (split_nl b)) # tl (split_nl b)"
proof (induction a)
  case Nil
  then show ?case using split_nl_not_Nil [of b] by simp
next
  case (Cons c a)
  then show ?case by simp
qed

lemma summary_heading_line:
  "\<exists>l \<in> set (split_nl (hd (summary_lines summary))).
     heading_line l \<and> includes_str l (ds_date summary)"
  if "10 \<notin> set (ds_date summary)"
proof -
  obtain tail where e: "hd (summary_lines summary) = (asc ''### '' @ ds_date summary) @ tail"
    by (simp add: summary_lines_def Let_def)
  let ?l = "(asc ''### '' @ ds_date summary) @ hd (split_nl tail)"
  have "10 \<notin> set (asc ''### '' @ ds_date summary)" using that by (simp add: asc_def)
  then have "split_nl (hd (summary_lines summary)) = ?l # tl (split_nl tail)"
    unfolding e by (rule hd_split_nl_append)
  moreover have "heading_line ?l"
    unfolding heading_line_iff
    by (rule exI [where x = 3], rule exI [where x = 32],
        rule exI [where x = "ds_date summary @ hd (split_nl tail)"])
       (simp add: asc_def is_space_def numeral_3_eq_3)
  moreover have "includes_str ?l (ds_date summary)"
    by (rule includes_strI [where pre = "asc ''### ''" and suf = "hd (split_nl tail)"]) simp
  ultimately show ?thesis by simp
qed

lemma generated_summary_line:
  assumes "summary \<in> set dailySummaries"
  shows "set (split_nl (hd (summary_lines summary)))
    \<subseteq> set (split_nl (generateWeeklyContent weekMeta projects highlights dailySummaries))"
proof -
  have n: "dailySummaries \<noteq> []" using assms by auto
  have h: "hd (summary_lines summary) \<in> set (concat (map summary_lines dailySummaries))"
    using assms by (auto simp: summary_lines_def Let_def)
  show ?thesis
    unfolding generateWeeklyContent_def
    using n h by (subst split_nl_join_nl) auto
qed

lemma aggregate_summaries:
  "d \<in> set dailies \<Longrightarrow>
   \<exists>projects highlights dailySummaries.
     wa_content (aggregateDailiesToWeekly rt dailies weekMeta)
       = generateWeeklyContent weekMeta projects highlights dailySummaries
     \<and> createDailySummary d \<in> set dailySummaries"
  apply (simp add: aggregateDailiesToWeekly_def aggregateSorted_def Let_def)
  apply (rule exI)+
  apply (rule conjI)
   apply (rule refl)
  apply (simp add: set_array_sort)
  done

lemma generated_has_date_line:
  assumes "d \<in> set dailies" and "10 \<notin> set (dm_date (dl_meta d))"
  shows "\<exists>l \<in> set (split_nl (wa_content (aggregateDailiesToWeekly rt dailies weekMeta))).
     heading_line l \<and> includes_str l (dm_date (dl_meta d))"
proof -
  obtain projects highlights dailySummaries
    where c: "wa_content (aggregateDailiesToWeekly rt dailies weekMeta)
       = generateWeeklyContent weekMeta projects highlights dailySummaries"
      and m: "createDailySummary d \<in> set dailySummaries"
    using aggregate_summaries [OF assms(1)] by blast
  have dd: "ds_date (createDailySummary d) = dm_date (dl_meta d)"
    by (simp add: createDailySummary_def)
  obtain l where l: "l \<in> set (split_nl (hd (summary_lines (createDailySummary d))))"
    "heading_line l" "includes_str l (dm_date (dl_meta d))"
    using summary_heading_line [of "createDailySummary d"] assms(2) dd by auto
  have "set (split_nl (hd (summary_lines (createDailySummary d))))
    \<subseteq> set (split_nl (wa_content (aggregateDailiesToWeekly rt dailies weekMeta)))"
    unfolding c by (rule generated_summary_line [OF m])
  then show ?thesis using l by blast
qed

lemma generated_has_summary_heading:
  "\<exists>pre post. split_nl (wa_content (aggregateDailiesToWeekly rt dailies weekMeta))
     = pre @ heading_summary # post"
proof -
  obtain projects highlights dailySummaries
    where c: "wa_content (aggregateDailiesToWeekly rt dailies weekMeta)
       = generateWeeklyContent weekMeta projects highlights dailySummaries"
    using aggregate_content by blast
  show ?thesis unfolding c using generated_lines [of weekMeta projects highlights dailySummaries]
    by blast
qed

lemma blank_has_no_section: "trim s = [] \<Longrightarrow> extractSection rt s t = []"
proof -
  assume "trim s = []"
  then have "\<forall>c \<in> set (dropWhile is_space s). is_space c"
    by (simp add: trim_def dropWhile_eq_Nil_conv)
  moreover have "\<not> is_space (hd (dropWhile is_space s))" if "dropWhile is_space s \<noteq> []"
    using that by (rule hd_dropWhile)
  ultimately have "dropWhile is_space s = []"
    by (cases "dropWhile is_space s") auto
  then have a: "\<forall>c \<in> set s. is_space c" by (simp add: dropWhile_eq_Nil_conv)
  have "\<not> opens_section (canonicalize rt) t l" if "l \<in> set (split_nl s)" for l
  proof (cases l)
    case Nil
    then show ?thesis by (simp add: not_opens_plain)
  next
    case (Cons c cs)
    then have "c \<in> set s" using split_nl_lines_subset [OF that] by auto
    then have "c \<noteq> 35" using a by (auto simp: is_space_def)
    then show ?thesis using Cons by (simp add: opens_section_def)
  qed
  then have "list_all (\<lambda>l. \<not> opens_section (canonicalize rt) t l) (split_nl s)"
    by (simp add: list_all_iff)
  then show ?thesis by (simp add: extractSection_def extract_loop_none trim_Nil)
qed

lemma no_nl_heading_summary: "10 \<notin> set heading_summary"
  by (simp add: heading_summary_def asc_def)

lemma replace_loop_sources:
  "set (replace_loop cf t new b ls) \<subseteq> set ls \<union> {[], new}"
  by (induction ls arbitrary: b) (auto simp: Let_def)

lemma replaceSection_sources:
  "set (split_nl (replaceSection rt c t new))
     \<subseteq> set (split_nl c) \<union> {[]} \<union> set (split_nl new)"
proof (cases "replace_loop (canonicalize rt) t new False (split_nl c) = []")
  case True
  then show ?thesis by (simp add: replaceSection_def)
next
  case False
  let ?R = "replace_loop (canonicalize rt) t new False (split_nl c)"
  have l: "split_nl (replaceSection rt c t new) = concat (map split_nl ?R)"
    using False by (rule replaceSection_lines)
  have "set (split_nl e) \<subseteq> set (split_nl c) \<union> {[]} \<union> set (split_nl new)" if "e \<in> set ?R" for e
  proof -
    from that replace_loop_sources [of "canonicalize rt" t new False "split_nl c"]
    consider "e \<in> set (split_nl c)" | "e = []" | "e = new" by blast
    then show ?thesis
    proof cases
      case 1
      then have "split_nl e = [e]" by (simp add: split_nl_no_nl split_nl_lines_no_nl)
      then show ?thesis using 1 by simp
    next
      case 2
      then show ?thesis by simp
    next
      case 3
      then show ?thesis by blast
    qed
  qed
  then show ?thesis unfolding l by auto
qed

lemma replace_loop_none:
  "list_all (\<lambda>l. \<not> opens_section cf t l) ls \<Longrightarrow> replace_loop cf t new False ls = ls"
  by (induction ls) (auto simp: Let_def)

lemma replace_loop_skip:
  "list_all (\<lambda>l. \<not> opens_section cf t l) pre \<Longrightarrow>
   replace_loop cf t new False (pre @ ls) = pre @ replace_loop cf t new False ls"
  by (induction pre) (auto simp: Let_def)

lemma replace_loop_interior:
  "list_all (\<lambda>l. \<not> opens_section cf t l \<and> \<not> heading_line l) mid \<Longrightarrow>
   replace_loop cf t new True (mid @ ls) = replace_loop cf t new True ls"
  by (induction mid) (auto simp: Let_def)

lemma replace_loop_stop:
  "post = [] \<or> heading_line (hd post) \<Longrightarrow> list_all (\<lambda>l. \<not> opens_section cf t l) post \<Longrightarrow>
   replace_loop cf t new True post = post"
  by (cases post) (auto simp: Let_def replace_loop_none)

lemma replace_loop_section:
  assumes "list_all (\<lambda>l. \<not> opens_section cf t l) pre"
    and "opens_section cf t h"
    and "list_all (\<lambda>l. \<not> opens_section cf t l \<and> \<not> heading_line l) mid"
    and "post = [] \<or> heading_line (hd post)"
    and "list_all (\<lambda>l. \<not> opens_section cf t l) post"
  shows "replace_loop cf t new False (pre @ h # mid @ post) = pre @ h # [] # new # post"
  using assms by (simp add: replace_loop_skip replace_loop_interior replace_loop_stop)

lemma concat_split_lines: "\<forall>l \<in> set ls. 10 \<notin> set l \<Longrightarrow> concat (map split_nl ls) = ls"
  by (induction ls) (auto simp: split_nl_no_nl)

text \<open>A section with a sole opener: the lines between its heading and the next heading
  are replaced by a blank line and the new text, and every other line is kept.\<close>

lemma replaceSection_section:
  assumes "split_nl c = pre @ h # mid @ post"
    and "list_all (\<lambda>l. \<not> opens_section (canonicalize rt) t l) pre"
    and "opens_section (canonicalize rt) t h"
    and "list_all (\<lambda>l. \<not> opens_section (canonicalize rt) t l \<and> \<not> heading_line l) mid"
    and "post = [] \<or> heading_line (hd post)"
    and "list_all (\<lambda>l. \<not> opens_section (canonicalize rt) t l) post"
  shows "split_nl (replaceSection rt c t new) = pre @ h # [] # split_nl new @ post"
proof -
  have r: "replace_loop (canonicalize rt) t new False (split_nl c) = pre @ h # [] # new # post"
    unfolding assms(1) using assms(2-6) by (rule replace_loop_section)
  have n: "10 \<notin> set l" if "l \<in> set pre \<union> {h} \<union> set post" for l
  proof -
    have "l \<in> set (split_nl c)" using that unfolding assms(1) by auto
    then show ?thesis by (rule split_nl_lines_no_nl)
  qed
  have cp: "concat (map split_nl pre) = pre" by (rule concat_split_lines) (use n in auto)
  have cq: "concat (map split_nl post) = post" by (rule concat_split_lines) (use n in auto)
  have ch: "split_nl h = [h]" using n [of h] by (simp add: split_nl_no_nl)
  have "split_nl (replaceSection rt c t new) = concat (map split_nl (pre @ h # [] # new # post))"
    unfolding replaceSection_def r by (rule split_nl_join_nl) simp
  also have "\<dots> = pre @ h # [] # split_nl new @ post"
    using cp cq ch by simp
  finally show ?thesis .
qed

lemma merge_structure:
  assumes "extractSection rt existing title_summary = s" and "s \<noteq> []" and "10 \<notin> set s"
    and "sole_opener rt (wa_content (aggregateDailiesToWeekly rt dailies weekMeta)) title_summary_full"
    and "sole_opener rt (wa_content (aggregateDailiesToWeekly rt dailies weekMeta)) title_risks"
    and "sole_opener rt (wa_content (aggregateDailiesToWeekly rt dailies weekMeta)) title_plan"
    and "\<not> opens_section (canonicalize rt) title_risks s"
    and "\<not> opens_section (canonicalize rt) title_plan s"
    and "list_all (\<lambda>l. \<not> opens_section (canonicalize rt) title_plan l)
           (split_nl (extractSection rt existing title_risks))"
  shows "\<exists>pre mid.
      split_nl (wa_content (aggregateDailiesToWeekly rt dailies weekMeta))
        = pre @ heading_summary # [[], []] @ mid @ heading_risks # [asc ''-'', []]
            @ heading_plan # [asc ''-'', []]
    \<and> split_nl (mergeWeeklyContent rt existing (aggregateDailiesToWeekly rt dailies weekMeta))
        = pre @ heading_summary # [[], s] @ mid
            @ heading_risks # merged_interior (extractSection rt existing title_risks)
            @ heading_plan # merged_interior (extractSection rt existing title_plan)"
proof -
  let ?A = "aggregateDailiesToWeekly rt dailies weekMeta"
  let ?cf = "canonicalize rt"
  let ?r = "extractSection rt existing title_risks"
  let ?p = "extractSection rt existing title_plan"
  let ?c1 = "replaceSection rt (wa_content ?A) title_summary_full s"
  let ?c2 = "if ?r \<noteq> [] \<and> ?r \<noteq> asc ''-'' then replaceSection rt ?c1 title_risks ?r else ?c1"
  let ?c3 = "if ?p \<noteq> [] \<and> ?p \<noteq> asc ''-'' then replaceSection rt ?c2 title_plan ?p else ?c2"
  let ?RP = "heading_risks # [asc ''-'', []]"
  let ?PP = "heading_plan # [asc ''-'', []]"
  have ne: "trim existing \<noteq> []"
    using assms(1,2) blank_has_no_section [of existing rt title_summary] by auto
  have m: "mergeWeeklyContent rt existing ?A = ?c3"
    using ne assms(1,2) by (simp add: mergeWeeklyContent_def Let_def)
  obtain projects highlights dailySummaries
    where c: "wa_content ?A = generateWeeklyContent weekMeta projects highlights dailySummaries"
    using aggregate_content by blast
  obtain X where L: "split_nl (wa_content ?A)
     = (split_nl (title_line weekMeta) @ [[]]) @ heading_summary # [[], []]
       @ (heading_highlights # X)
       @ heading_risks # [asc ''-'', []] @ heading_plan # [asc ''-'', []] @ []"
    unfolding c using generated_lines by blast
  define P where "P = split_nl (title_line weekMeta) @ [[]]"
  define M where "M = heading_highlights # X"
  have hM: "heading_line (hd (M @ ?RP @ ?PP))" by (simp add: M_def heading_line_plain)
  have L0: "split_nl (wa_content ?A) = P @ heading_summary # [[], []] @ M @ ?RP @ ?PP"
    using L by (simp add: P_def M_def)
  have ss: "split_nl s = [s]" using assms(3) by (rule split_nl_no_nl)
  have "length (filter (opens_section ?cf title_summary_full)
      (P @ heading_summary # ([[], []] @ M @ ?RP @ ?PP))) = 1"
    using assms(4) unfolding sole_opener_def L0 by simp
  from filter_single [OF this opens_own(2)]
  have o1: "list_all (\<lambda>l. \<not> opens_section ?cf title_summary_full l) P"
    "list_all (\<lambda>l. \<not> opens_section ?cf title_summary_full l) (M @ ?RP @ ?PP)" by simp_all
  have "split_nl ?c1 = P @ heading_summary # [] # split_nl s @ (M @ ?RP @ ?PP)"
  proof (rule replaceSection_section [where mid = "[[], []]"])
    show "split_nl (wa_content ?A) = P @ heading_summary # [[], []] @ (M @ ?RP @ ?PP)"
      using L0 by simp
    show "M @ ?RP @ ?PP = [] \<or> heading_line (hd (M @ ?RP @ ?PP))" using hM by simp
  qed (use o1 in \<open>simp_all add: opens_own not_opens_plain heading_line_plain\<close>)
  then have L1: "split_nl ?c1 = (P @ heading_summary # [[], s] @ M) @ ?RP @ ?PP"
    by (simp add: ss)
  have "length (filter (opens_section ?cf title_risks)
      ((P @ heading_summary # [[], []] @ M) @ heading_risks # ([asc ''-'', []] @ ?PP))) = 1"
    using assms(5) unfolding sole_opener_def L0 by simp
  from filter_single [OF this opens_own(3)]
  have o2: "list_all (\<lambda>l. \<not> opens_section ?cf title_risks l) (P @ heading_summary # [[], []] @ M)"
    "list_all (\<lambda>l. \<not> opens_section ?cf title_risks l) ?PP" by simp_all
  have L2: "split_nl ?c2 = (P @ heading_summary # [[], s] @ M) @ heading_risks # merged_interior ?r @ ?PP"
  proof (cases "?r \<noteq> [] \<and> ?r \<noteq> asc ''-''")
    case True
    have "split_nl (replaceSection rt ?c1 title_risks ?r)
      = (P @ heading_summary # [[], s] @ M) @ heading_risks # [] # split_nl ?r @ ?PP"
    proof (rule replaceSection_section [where mid = "[asc ''-'', []]"])
      show "split_nl ?c1 = (P @ heading_summary # [[], s] @ M) @ heading_risks # [asc ''-'', []] @ ?PP"
        using L1 by simp
      show "list_all (\<lambda>l. \<not> opens_section ?cf title_risks l) (P @ heading_summary # [[], s] @ M)"
        using o2(1) assms(7) by simp
      show "?PP = [] \<or> heading_line (hd ?PP)" by (simp add: heading_line_plain)
    qed (use o2 in \<open>simp_all add: opens_own not_opens_plain heading_line_plain\<close>)
    then show ?thesis using True by (simp add: merged_interior_def)
  next
    case False
    then show ?thesis using L1 by (auto simp: merged_interior_def)
  qed
  have "length (filter (opens_section ?cf title_plan)
      ((P @ heading_summary # [[], []] @ M @ ?RP) @ heading_plan # [asc ''-'', []])) = 1"
    using assms(6) unfolding sole_opener_def L0 by simp
  from filter_single [OF this opens_own(4)]
  have o3: "list_all (\<lambda>l. \<not> opens_section ?cf title_plan l) (P @ heading_summary # [[], []] @ M @ ?RP)"
    by simp
  have ri: "list_all (\<lambda>l. \<not> opens_section ?cf title_plan l) (merged_interior ?r)"
    using assms(9) by (simp add: merged_interior_def not_opens_plain)
  have L3: "split_nl ?c3 = (P @ heading_summary # [[], s] @ M @ heading_risks # merged_interior ?r)
      @ heading_plan # merged_interior ?p"
  proof (cases "?p \<noteq> [] \<and> ?p \<noteq> asc ''-''")
    case True
    have "split_nl (replaceSection rt ?c2 title_plan ?p)
      = (P @ heading_summary # [[], s] @ M @ heading_risks # merged_interior ?r)
          @ heading_plan # [] # split_nl ?p @ []"
    proof (rule replaceSection_section [where mid = "[asc ''-'', []]"])
      show "split_nl ?c2 = (P @ heading_summary # [[], s] @ M @ heading_risks # merged_interior ?r)
          @ heading_plan # [asc ''-'', []] @ []"
        using L2 by simp
      show "list_all (\<lambda>l. \<not> opens_section ?cf title_plan l)
          (P @ heading_summary # [[], s] @ M @ heading_risks # merged_interior ?r)"
        using o3 ri assms(8) by simp
    qed (simp_all add: opens_own not_opens_plain heading_line_plain)
    then show ?thesis using True by (simp add: merged_interior_def)
  next
    case False
    then show ?thesis using L2 by (auto simp: merged_interior_def)
  qed
  have "split_nl (wa_content ?A)
        = P @ heading_summary # [[], []] @ M @ heading_risks # [asc ''-'', []]
            @ heading_plan # [asc ''-'', []]
    \<and> split_nl (mergeWeeklyContent rt existing ?A)
        = P @ heading_summary # [[], s] @ M
            @ heading_risks # merged_interior ?r
            @ heading_plan # merged_interior ?p"
    unfolding m using L0 L3 by simp
  then show ?thesis by blast
qed

text \<open>
  C2, as the code has it. For every runtime, weekly metadata and list of daily logs that
  holds a log dated 2026-01-13, and every existing body whose Summary section reads as
  a non-empty one-line sentence, the runtime's case folding being such that the Summary
  heading does not open the Risks or the Plan section. First, the regenerated, merged
  body contains the Summary heading, a blank line and that sentence verbatim. Second, it
  contains the string 2026-01-13. Third, each of its lines is a line of the fresh body,
  a blank line, or a line of one of the three editable sections of the existing body.
  Fourth, it depends on the existing body only through these three sections: two
  non-blank existing bodies that agree on them give the same result. Fifth, when in the
  fresh body each of the three titles that \<open>replaceSection\<close> is called with (the full
  Summary title, Risks and Blockers, Next Week Plan) has a sole opener, the sentence opens
  neither the Risks nor the Plan section, and no line of the Risks text of the existing
  body opens the Plan section, then the merged body is the fresh body with the
  interiors of these three sections exchanged and every other line in its place: the
  fresh body reads \<open>pre\<close>, the Summary heading, two blank lines, \<open>mid\<close>, the Risks heading,
  \<open>-\<close>, a blank line, the Plan heading, \<open>-\<close>, a blank line, and the merged body reads
  the same \<open>pre\<close>, the Summary heading, a blank line, the sentence, the same \<open>mid\<close>, the
  Risks heading, under it a blank line and the Risks text of the existing body when
  that is neither empty nor \<open>-\<close> and otherwise \<open>-\<close> and a blank line, the Plan heading, and
  under it the same for the Plan text. Nothing is stated about the place of the lines
  of a fresh body in which a line taken from a daily log opens one of the three
  sections.
\<close>

theorem merge_preserves_edits:
  assumes "extractSection rt existing title_summary = s" and "s \<noteq> []" and "10 \<notin> set s"
    and "\<not> opens_section (canonicalize rt) title_risks heading_summary"
    and "\<not> opens_section (canonicalize rt) title_plan heading_summary"
    and "d \<in> set dailies" and "dm_date (dl_meta d) = asc ''2026-01-13''"
  shows "includes_str (mergeWeeklyContent rt existing (aggregateDailiesToWeekly rt dailies weekMeta))
           (heading_summary @ [10, 10] @ s)
    \<and> includes_str (mergeWeeklyContent rt existing (aggregateDailiesToWeekly rt dailies weekMeta))
           (asc ''2026-01-13'')
    \<and> set (split_nl (mergeWeeklyContent rt existing (aggregateDailiesToWeekly rt dailies weekMeta)))
         \<subseteq> set (split_nl (wa_content (aggregateDailiesToWeekly rt dailies weekMeta))) \<union> {[]}
           \<union> set (split_nl (extractSection rt existing title_summary))
           \<union> set (split_nl (extractSection rt existing title_risks))
           \<union> set (split_nl (extractSection rt existing title_plan))
    \<and> (trim existing' \<noteq> []
         \<and> extractSection rt existing' title_summary = extractSection rt existing title_summary
         \<and> extractSection rt existing' title_risks = extractSection rt existing title_risks
         \<and> extractSection rt existing' title_plan = extractSection rt existing title_plan
       \<longrightarrow> mergeWeeklyContent rt existing' (aggregateDailiesToWeekly rt dailies weekMeta)
           = mergeWeeklyContent rt existing (aggregateDailiesToWeekly rt dailies weekMeta))
    \<and> (sole_opener rt (wa_content (aggregateDailiesToWeekly rt dailies weekMeta)) title_summary_full
         \<and> sole_opener rt (wa_content (aggregateDailiesToWeekly rt dailies weekMeta)) title_risks
         \<and> sole_opener rt (wa_content (aggregateDailiesToWeekly rt dailies weekMeta)) title_plan
         \<and> \<not> opens_section (canonicalize rt) title_risks s
         \<and> \<not> opens_section (canonicalize rt) title_plan s
         \<and> list_all (\<lambda>l. \<not> opens_section (canonicalize rt) title_plan l)
              (split_nl (extractSection rt existing title_risks))
       \<longrightarrow> (\<exists>pre mid.
             split_nl (wa_content (aggregateDailiesToWeekly rt dailies weekMeta))
               = pre @ heading_summary # [[], []] @ mid @ heading_risks # [asc ''-'', []]
                   @ heading_plan # [asc ''-'', []]
           \<and> split_nl (mergeWeeklyContent rt existing (aggregateDailiesToWeekly rt dailies weekMeta))
               = pre @ heading_summary # [[], s] @ mid
                   @ heading_risks # merged_interior (extractSection rt existing title_risks)
                   @ heading_plan # merged_interior (extractSection rt existing title_plan)))"
proof -
  let ?A = "aggregateDailiesToWeekly rt dailies weekMeta"
  let ?B = "\<lambda>c. \<exists>pre post. split_nl c = pre @ heading_summary # [] # s # post"
  let ?D = "\<lambda>c. \<exists>l \<in> set (split_nl c). heading_line l \<and> includes_str l (asc ''2026-01-13'')"
  let ?r = "extractSection rt existing title_risks"
  let ?p = "extractSection rt existing title_plan"
  let ?c1 = "replaceSection rt (wa_content ?A) title_summary_full s"
  let ?c2 = "if ?r \<noteq> [] \<and> ?r \<noteq> asc ''-'' then replaceSection rt ?c1 title_risks ?r else ?c1"
  let ?c3 = "if ?p \<noteq> [] \<and> ?p \<noteq> asc ''-'' then replaceSection rt ?c2 title_plan ?p else ?c2"
  have ne: "trim existing \<noteq> []"
    using assms(1,2) blank_has_no_section [of existing rt title_summary] by auto
  have m: "mergeWeeklyContent rt existing ?A = ?c3"
    using ne assms(1,2) by (simp add: mergeWeeklyContent_def Let_def)
  have keepB: "?B (replaceSection rt c t new)"
    if "?B c" "\<not> opens_section (canonicalize rt) t heading_summary" for c t new
    using that assms(3) no_nl_heading_summary heading_line_plain(1)
    by (intro replaceSection_keeps_block) auto
  have keepD: "?D (replaceSection rt c t new)" if "?D c" for c t new
    using that replaceSection_keeps_heading by blast
  have "10 \<notin> set (dm_date (dl_meta d))" using assms(7) by (simp add: asc_def)
  then have D0: "?D (wa_content ?A)"
    using generated_has_date_line [OF assms(6), of rt weekMeta] assms(7) by simp
  have B1: "?B ?c1"
    using generated_has_summary_heading opens_own(2) assms(3) no_nl_heading_summary
    by (rule replaceSection_splices)
  have D1: "?D ?c1" using D0 by (rule keepD)
  have B2: "?B ?c2" using B1 keepB [OF B1 assms(4)] by (simp split: if_splits)
  have D2: "?D ?c2" using D1 keepD [OF D1] by (simp split: if_splits)
  have B3: "?B ?c3" using B2 keepB [OF B2 assms(5)] by (simp split: if_splits)
  have D3: "?D ?c3" using D2 keepD [OF D2] by (simp split: if_splits)
  obtain pre post where "split_nl ?c3 = pre @ [heading_summary, [], s] @ post"
    using B3 by auto
  then have "includes_str (join_nl (split_nl ?c3)) (join_nl [heading_summary, [], s])"
    using includes_join_nl [of "[heading_summary, [], s]" pre post] by simp
  then have i1: "includes_str ?c3 (heading_summary @ [10, 10] @ s)"
    by (simp add: join_nl_split_nl)
  obtain l where "l \<in> set (split_nl ?c3)" "includes_str l (asc ''2026-01-13'')"
    using D3 by blast
  then have i2: "includes_str ?c3 (asc ''2026-01-13'')"
    using includes_line includes_str_trans by blast
  have i3: "mergeWeeklyContent rt existing' ?A = mergeWeeklyContent rt existing ?A"
    if "trim existing' \<noteq> []"
      "extractSection rt existing' title_summary = extractSection rt existing title_summary"
      "extractSection rt existing' title_risks = extractSection rt existing title_risks"
      "extractSection rt existing' title_plan = extractSection rt existing title_plan"
    using that ne by (simp add: mergeWeeklyContent_def Let_def)
  have s1: "set (split_nl ?c1) \<subseteq> set (split_nl (wa_content ?A)) \<union> {[]} \<union> set (split_nl s)"
    by (rule replaceSection_sources)
  have s2: "set (split_nl ?c2) \<subseteq> set (split_nl ?c1) \<union> {[]} \<union> set (split_nl ?r)"
    using replaceSection_sources [of rt ?c1 title_risks ?r] by (auto split: if_splits)
  have s3: "set (split_nl ?c3) \<subseteq> set (split_nl ?c2) \<union> {[]} \<union> set (split_nl ?p)"
    using replaceSection_sources [of rt ?c2 title_plan ?p] by (auto split: if_splits)
  have i4: "set (split_nl ?c3) \<subseteq> set (split_nl (wa_content ?A)) \<union> {[]}
      \<union> set (split_nl (extractSection rt existing title_summary))
      \<union> set (split_nl ?r) \<union> set (split_nl ?p)"
    using s1 s2 s3 unfolding assms(1) by blast
  have i5: "\<exists>pre mid.
             split_nl (wa_content ?A)
               = pre @ heading_summary # [[], []] @ mid @ heading_risks # [asc ''-'', []]
                   @ heading_plan # [asc ''-'', []]
           \<and> split_nl (mergeWeeklyContent rt existing ?A)
               = pre @ heading_summary # [[], s] @ mid
                   @ heading_risks # merged_interior ?r
                   @ heading_plan # merged_interior ?p"
    if "sole_opener rt (wa_content ?A) title_summary_full"
      "sole_opener rt (wa_content ?A) title_risks"
      "sole_opener rt (wa_content ?A) title_plan"
      "\<not> opens_section (canonicalize rt) title_risks s"
      "\<not> opens_section (canonicalize rt) title_plan s"
      "list_all (\<lambda>l. \<not> opens_section (canonicalize rt) title_plan l) (split_nl ?r)"
    using assms(1-3) that by (rule merge_structure)
  have i123: "includes_str (mergeWeeklyContent rt existing ?A) (heading_summary @ [10, 10] @ s)"
    "includes_str (mergeWeeklyContent rt existing ?A) (asc ''2026-01-13'')"
    "set (split_nl (mergeWeeklyContent rt existing ?A)) \<subseteq> set (split_nl (wa_content ?A)) \<union> {[]}
      \<union> set (split_nl (extractSection rt existing title_summary))
      \<union> set (split_nl ?r) \<union> set (split_nl ?p)"
    using i1 i2 i4 unfolding m by simp_all
  show ?thesis using i123 i3 i5 by blast
qed

theorem merge_preserves_edits_witness:
  "extractSection basic_runtime edited_twice title_summary = edited_sentence
   \<and> edited_sentence \<noteq> [] \<and> 10 \<notin> set edited_sentence
   \<and> \<not> opens_section (canonicalize basic_runtime) title_risks heading_summary
   \<and> \<not> opens_section (canonicalize basic_runtime) title_plan heading_summary
   \<and> daily_13 \<in> set [daily_12, daily_13] \<and> dm_date (dl_meta daily_13) = asc ''2026-01-13''
   \<and> sole_opener basic_runtime
        (wa_content (aggregateDailiesToWeekly basic_runtime [daily_12, daily_13] week_03)) title_summary_full
   \<and> sole_opener basic_runtime
        (wa_content (aggregateDailiesToWeekly basic_runtime [daily_12, daily_13] week_03)) title_risks
   \<and> sole_opener basic_runtime
        (wa_content (aggregateDailiesToWeekly basic_runtime [daily_12, daily_13] week_03)) title_plan
   \<and> \<not> opens_section (canonicalize basic_runtime) title_risks edited_sentence
   \<and> \<not> opens_section (canonicalize basic_runtime) title_plan edited_sentence
   \<and> extractSection basic_runtime edited_twice title_risks = asc ''- vendor delay''
   \<and> extractSection basic_runtime edited_twice title_plan = asc ''-''
   \<and> list_all (\<lambda>l. \<not> opens_section (canonicalize basic_runtime) title_plan l)
        (split_nl (extractSection basic_runtime edited_twice title_risks))
   \<and> includes_str (mergeWeeklyContent basic_runtime edited_twice
          (aggregateDailiesToWeekly basic_runtime [daily_12, daily_13] week_03))
        (heading_summary @ [10, 10] @ edited_sentence)
   \<and> includes_str (mergeWeeklyContent basic_runtime edited_twice
          (aggregateDailiesToWeekly basic_runtime [daily_12, daily_13] week_03))
        (asc ''2026-01-13'')
   \<and> (\<exists>pre mid.
         split_nl (wa_content (aggregateDailiesToWeekly basic_runtime [daily_12, daily_13] week_03))
           = pre @ heading_summary # [[], []] @ mid @ heading_risks # [asc ''-'', []]
               @ heading_plan # [asc ''-'', []]
       \<and> split_nl (mergeWeeklyContent basic_runtime edited_twice
            (aggregateDailiesToWeekly basic_runtime [daily_12, daily_13] week_03))
           = pre @ heading_summary # [[], edited_sentence] @ mid
               @ heading_risks # [[], asc ''- vendor delay'']
               @ heading_plan # [asc ''-'', []])"
proof -
  let ?A = "aggregateDailiesToWeekly basic_runtime [daily_12, daily_13] week_03"
  have a: "extractSection basic_runtime edited_twice title_summary = edited_sentence"
    by (simp add: edited_twice_def edited_report_def edited_sentence_def agg_defs eval_defs
        daily_12_def week_03_def)
  have b: "edited_sentence \<noteq> []" "10 \<notin> set edited_sentence"
    by (simp_all add: edited_sentence_def)
  have c: "\<not> opens_section (canonicalize basic_runtime) title_risks heading_summary"
    "\<not> opens_section (canonicalize basic_runtime) title_plan heading_summary"
    by (simp_all add: agg_defs eval_defs)
  have d: "daily_13 \<in> set [daily_12, daily_13]" "dm_date (dl_meta daily_13) = asc ''2026-01-13''"
    by (simp_all add: daily_13_def)
  have h: "sole_opener basic_runtime (wa_content ?A) title_summary_full"
    "sole_opener basic_runtime (wa_content ?A) title_risks"
    "sole_opener basic_runtime (wa_content ?A) title_plan"
    by (simp_all add: sole_opener_def agg_defs eval_defs daily_12_def daily_13_def week_03_def)
  have n: "\<not> opens_section (canonicalize basic_runtime) title_risks edited_sentence"
    "\<not> opens_section (canonicalize basic_runtime) title_plan edited_sentence"
    by (simp_all add: edited_sentence_def opens_section_def)
  have r: "extractSection basic_runtime edited_twice title_risks = asc ''- vendor delay''"
    by (simp add: edited_twice_def edited_report_def edited_sentence_def agg_defs eval_defs
        daily_12_def week_03_def)
  have p: "extractSection basic_runtime edited_twice title_plan = asc ''-''"
    by (simp add: edited_twice_def edited_report_def edited_sentence_def agg_defs eval_defs
        daily_12_def week_03_def)
  have q: "list_all (\<lambda>l. \<not> opens_section (canonicalize basic_runtime) title_plan l)
        (split_nl (extractSection basic_runtime edited_twice title_risks))"
    unfolding r by (simp add: asc_def opens_section_def)
  have i: "merged_interior (asc ''- vendor delay'') = [[], asc ''- vendor delay'']"
    "merged_interior (asc ''-'') = [asc ''-'', []]"
    by (simp_all add: merged_interior_def asc_def)
  note t = merge_preserves_edits [OF a b c d, of week_03 edited_twice]
  from t have i1: "includes_str (mergeWeeklyContent basic_runtime edited_twice ?A)
        (heading_summary @ [10, 10] @ edited_sentence)"
    and i2: "includes_str (mergeWeeklyContent basic_runtime edited_twice ?A) (asc ''2026-01-13'')"
    by blast+
  from t h n q have "\<exists>pre mid.
         split_nl (wa_content ?A)
           = pre @ heading_summary # [[], []] @ mid @ heading_risks # [asc ''-'', []]
               @ heading_plan # [asc ''-'', []]
       \<and> split_nl (mergeWeeklyContent basic_runtime edited_twice ?A)
           = pre @ heading_summary # [[], edited_sentence] @ mid
               @ heading_risks # merged_interior (extractSection basic_runtime edited_twice title_risks)
               @ heading_plan # merged_interior (extractSection basic_runtime edited_twice title_plan)"
    by blast
  then have i5: "\<exists>pre mid.
         split_nl (wa_content ?A)
           = pre @ heading_summary # [[], []] @ mid @ heading_risks # [asc ''-'', []]
               @ heading_plan # [asc ''-'', []]
       \<and> split_nl (mergeWeeklyContent basic_runtime edited_twice ?A)
           = pre @ heading_summary # [[], edited_sentence] @ mid
               @ heading_risks # [[], asc ''- vendor delay'']
               @ heading_plan # [asc ''-'', []]"
    unfolding r p i .
  show ?thesis using a b c d h n r p q i1 i2 i5 by blast
qed

text \<open>
  The claim as worded fails on the code. The existing report is the one of the
  scenario: generated from the log of 2026-01-12, its Summary edited by hand. The log
  added for 2026-01-13 has the line \<open>#\<close> followed by the full Summary title (a hashtag)
  and then the line \<open>important detail\<close>. The fresh aggregation shows both lines in its
  Daily Summaries section, which is outside the preserved set; the merge takes the
  hashtag line for a second Summary heading, puts the user's sentence under it and drops
  what follows up to the next heading: the merged body does not contain
  \<open>important detail\<close>.
\<close>

theorem merge_preserves_edits_counterexample:
  "extractSection basic_runtime edited_report title_summary = edited_sentence
   \<and> dm_date (dl_meta daily_tagged) = asc ''2026-01-13''
   \<and> includes_str (wa_content (aggregateDailiesToWeekly basic_runtime [daily_12, daily_tagged] week_03))
        (asc ''important detail'')
   \<and> \<not> includes_str (mergeWeeklyContent basic_runtime edited_report
          (aggregateDailiesToWeekly basic_runtime [daily_12, daily_tagged] week_03))
        (asc ''important detail'')"
proof -
  have a: "extractSection basic_runtime edited_report title_summary = edited_sentence"
    by (simp add: edited_report_def edited_sentence_def agg_defs eval_defs daily_12_def week_03_def)
  have b: "dm_date (dl_meta daily_tagged) = asc ''2026-01-13''"
    by (simp add: daily_tagged_def)
  have c: "includes_str (wa_content (aggregateDailiesToWeekly basic_runtime [daily_12, daily_tagged] week_03))
        (asc ''important detail'')"
    by (simp add: agg_defs eval_defs daily_12_def daily_tagged_def week_03_def)
  have r: "extractSection basic_runtime edited_report title_risks = asc ''-''"
    "extractSection basic_runtime edited_report title_plan = asc ''-''"
    by (simp_all add: edited_report_def edited_sentence_def agg_defs eval_defs daily_12_def week_03_def)
  have t: "trim edited_report \<noteq> []"
    using a blank_has_no_section [of edited_report basic_runtime title_summary]
    by (auto simp: edited_sentence_def)
  have m: "mergeWeeklyContent basic_runtime edited_report
          (aggregateDailiesToWeekly basic_runtime [daily_12, daily_tagged] week_03)
      = replaceSection basic_runtime
          (wa_content (aggregateDailiesToWeekly basic_runtime [daily_12, daily_tagged] week_03))
          title_summary_full edited_sentence"
    unfolding mergeWeeklyContent_def Let_def a r using t by (simp add: edited_sentence_def)
  have d: "\<not> includes_str (replaceSection basic_runtime
          (wa_content (aggregateDailiesToWeekly basic_runtime [daily_12, daily_tagged] week_03))
          title_summary_full edited_sentence) (asc ''important detail'')"
    by (simp add: agg_defs eval_defs edited_sentence_def daily_12_def daily_tagged_def week_03_def)
  show ?thesis using a b c d unfolding m by simp
qed

section \<open>A text without front matter\<close>

lemma matter_no_delimiter:
  "\<not> starts_with (stripBom s) (asc ''---'') \<Longrightarrow> matter lib s = Inr (fl_empty lib, stripBom s)"
  by (cases s) (auto simp: matter_def stripBom_def Let_def)

text \<open>
  C3, as the code has it. Let \<open>s'\<close> be the input \<open>s\<close> without its first code unit when
  that is the byte-order mark U+FEFF, and \<open>s\<close> itself otherwise (\<open>stripBom\<close>). For every
  input such that \<open>s'\<close> does not begin with \<open>---\<close>, parsing the front matter does not fail:
  it returns the empty metadata object of the YAML library, \<open>s'\<close> trimmed as body, and \<open>s\<close>
  as raw text. For libraries whose empty object has no field set, the kind-specific
  parsers then fail in their validation with a \<open>ParseError\<close> for the first required field:
  \<open>week\<close> for \<open>parseWeekly\<close>, \<open>date\<close> for \<open>parseDaily\<close>. White space before a \<open>---\<close> block is
  not skipped (such an input is covered: it has no front matter), while a byte-order
  mark before a \<open>---\<close> block is (such an input is not covered: its block is parsed).
\<close>

theorem parse_without_frontmatter:
  assumes "\<not> starts_with (stripBom s) (asc ''---'')"
  shows "parseFrontmatter lib s
           = Inr \<lparr> pr_meta = fl_empty lib, pr_content = trim (stripBom s), pr_raw = s \<rparr>
    \<and> (fl_empty wlib = empty_weekly \<longrightarrow> parseWeekly wlib dr s filePath = Inl (ParseError (asc ''week'')))
    \<and> (fl_empty dlib = empty_daily \<longrightarrow> parseDaily dlib dr s filePath = Inl (ParseError (asc ''date'')))"
  using assms
  by (simp add: parseFrontmatter_def matter_no_delimiter parseWeekly_def parseDaily_def
      validateWeeklyMeta_def validateDailyMeta_def empty_weekly_def empty_daily_def
      falsy_string_def truthy_date_def)

theorem parse_without_frontmatter_witness:
  "\<not> starts_with (stripBom (asc '' hello '')) (asc ''---'')
   \<and> parseFrontmatter week_only_lib (asc '' hello '')
       = Inr \<lparr> pr_meta = empty_weekly, pr_content = asc ''hello'', pr_raw = asc '' hello '' \<rparr>
   \<and> parseWeekly week_only_lib plain_dates (asc '' hello '') (asc ''w.md'') = Inl (ParseError (asc ''week''))"
proof -
  have a: "\<not> starts_with (stripBom (asc '' hello '')) (asc ''---'')"
    by (simp add: stripBom_def asc_def)
  have b: "fl_empty week_only_lib = empty_weekly" by (simp add: week_only_lib_def)
  have c: "trim (stripBom (asc '' hello '')) = asc ''hello''"
    by (simp add: stripBom_def asc_def trim_def is_space_def)
  show ?thesis
    using parse_without_frontmatter [OF a, of week_only_lib week_only_lib plain_dates "asc ''w.md''"]
      a b c by simp
qed

text \<open>The claim as worded fails on the code: the text \<open>hello\<close> has no \<open>---\<close> block, and
  parsing it returns the empty metadata with the whole input as body.\<close>

theorem parse_without_frontmatter_counterexample:
  "parseFrontmatter week_only_lib (asc ''hello'')
     = Inr \<lparr> pr_meta = empty_weekly, pr_content = asc ''hello'', pr_raw = asc ''hello'' \<rparr>"
  by (simp add: parseFrontmatter_def matter_def stripBom_def Let_def week_only_lib_def asc_def
      trim_def is_space_def)

text \<open>The two inputs at the edge of the hypothesis. A byte-order mark before a \<open>---\<close>
  block is skipped and the block is parsed; white space before it is not, and the input
  has no front matter.\<close>

lemma frontmatter_after_bom:
  "parseFrontmatter week_only_lib
     (0xFEFF # asc ''---'' @ [10] @ asc ''2026-W03'' @ [10] @ asc ''---'' @ [10] @ asc ''body'')
   = Inr \<lparr> pr_meta = \<lparr> pw_week = Some (asc ''2026-W03''), pw_type = Some (asc ''weekly''),
                         pw_start_date = Some (DateString (asc ''2026-01-12'')),
                         pw_end_date = Some (DateString (asc ''2026-01-18'')),
                         pw_projects = None \<rparr>,
           pr_content = asc ''body'',
           pr_raw = 0xFEFF # asc ''---'' @ [10] @ asc ''2026-W03'' @ [10] @ asc ''---'' @ [10]
             @ asc ''body'' \<rparr>"
  by (simp add: parseFrontmatter_def matter_def stripBom_def Let_def week_only_lib_def asc_def
      trim_def is_space_def)

lemma frontmatter_after_space:
  "parseFrontmatter week_only_lib
     (32 # asc ''---'' @ [10] @ asc ''2026-W03'' @ [10] @ asc ''---'' @ [10] @ asc ''body'')
   = Inr \<lparr> pr_meta = empty_weekly,
           pr_content = asc ''---'' @ [10] @ asc ''2026-W03'' @ [10] @ asc ''---'' @ [10] @ asc ''body'',
           pr_raw = 32 # asc ''---'' @ [10] @ asc ''2026-W03'' @ [10] @ asc ''---'' @ [10]
             @ asc ''body'' \<rparr>"
  by (simp add: parseFrontmatter_def matter_def stripBom_def Let_def week_only_lib_def asc_def
      trim_def is_space_def)

section \<open>Regenerating an existing weekly report\<close>

text \<open>
  Relative to the record that \<open>getWeekly\<close> parses from the file of the week: when that
  record is \<open>existing\<close> and the daily logs of the week aggregate, \<open>generateWeekly\<close>
  succeeds, returns a report whose metadata is that of \<open>existing\<close> with the project list
  of the fresh aggregation, whose body is the merge and whose path is the existing one,
  and writes the serialisation of exactly this report to the file of the week, leaving
  every other file as it was. How the parsed record relates to the stored file is a
  matter of the parser; see the last section.
\<close>

lemma generateWeekly_keeps_metadata:
  assumes "week \<noteq> []"
    and "getWeekly env fs workspacePath week = Inr (Some existing)"
    and "aggregateFromDailies env fs workspacePath week = Inr aggregation"
  shows "generateWeekly env fs workspacePath (Some week)
      = (fs (getWeeklyFilePath env workspacePath week \<mapsto>
               serializeWeekly (we_lib env)
                 \<lparr> wr_meta = (wr_meta existing) \<lparr> wm_projects := wa_projects aggregation \<rparr>,
                   wr_content = mergeWeeklyContent (we_runtime env) (wr_content existing) aggregation,
                   wr_filePath = wr_filePath existing \<rparr>),
         Inr \<lparr> wr_meta = (wr_meta existing) \<lparr> wm_projects := wa_projects aggregation \<rparr>,
               wr_content = mergeWeeklyContent (we_runtime env) (wr_content existing) aggregation,
               wr_filePath = wr_filePath existing \<rparr>)
    \<and> wm_week ((wr_meta existing) \<lparr> wm_projects := wa_projects aggregation \<rparr>) = wm_week (wr_meta existing)
    \<and> wm_type ((wr_meta existing) \<lparr> wm_projects := wa_projects aggregation \<rparr>) = wm_type (wr_meta existing)
    \<and> wm_start_date ((wr_meta existing) \<lparr> wm_projects := wa_projects aggregation \<rparr>)
        = wm_start_date (wr_meta existing)
    \<and> wm_end_date ((wr_meta existing) \<lparr> wm_projects := wa_projects aggregation \<rparr>)
        = wm_end_date (wr_meta existing)
    \<and> wm_projects ((wr_meta existing) \<lparr> wm_projects := wa_projects aggregation \<rparr>)
        = wa_projects aggregation"
  using assms by (simp add: generateWeekly_def Let_def)

section \<open>Serialising and parsing again\<close>

lemma close_not_straddling:
  "u \<noteq> [] \<Longrightarrow> starts_with (u @ 10 # 45 # 45 # 45 # rest) [10, 45, 45, 45] \<Longrightarrow>
   starts_with u [10, 45, 45, 45]"
proof -
  assume a: "u \<noteq> []" "starts_with (u @ 10 # 45 # 45 # 45 # rest) [10, 45, 45, 45]"
  show ?thesis
  proof (cases u)
    case Nil
    then show ?thesis using a by simp
  next
    case u1: (Cons a1 t1)
    show ?thesis
    proof (cases t1)
      case Nil
      then show ?thesis using a u1 by simp
    next
      case u2: (Cons a2 t2)
      show ?thesis
      proof (cases t2)
        case Nil
        then show ?thesis using a u1 u2 by simp
      next
        case u3: (Cons a3 t3)
        show ?thesis
        proof (cases t3)
          case Nil
          then show ?thesis using a u1 u2 u3 by simp
        next
          case (Cons a4 t4)
          then show ?thesis using a u1 u2 u3 by simp
        qed
      qed
    qed
  qed
qed

lemma indexOf_close:
  "\<not> includes_str u [10, 45, 45, 45] \<Longrightarrow>
   indexOf (u @ 10 # 45 # 45 # 45 # rest) [10, 45, 45, 45] = Some (length u)"
proof (induction u)
  case Nil
  then show ?case by simp
next
  case (Cons c u)
  then have n: "\<not> starts_with (c # u) [10, 45, 45, 45]" "\<not> includes_str u [10, 45, 45, 45]"
    by simp_all
  have "\<not> starts_with ((c # u) @ 10 # 45 # 45 # 45 # rest) [10, 45, 45, 45]"
    using close_not_straddling [of "c # u" rest] n(1) by blast
  then show ?case using Cons.IH [OF n(2)] by simp
qed

lemma trim_between_newlines: "trim (10 # s @ [10]) = trim s"
proof -
  have sp: "is_space 10" by (simp add: is_space_def)
  show ?thesis
  proof (cases "\<forall>c \<in> set s. is_space c")
    case True
    then have a: "dropWhile is_space (10 # s @ [10]) = []" and b: "dropWhile is_space s = []"
      using sp by (auto simp: dropWhile_eq_Nil_conv)
    show ?thesis unfolding trim_def a b by simp
  next
    case False
    then obtain x where "x \<in> set s" "\<not> is_space x" by blast
    then have "dropWhile is_space (s @ [10]) = dropWhile is_space s @ [10]"
      by (rule dropWhile_append1)
    then have a: "dropWhile is_space (10 # s @ [10]) = dropWhile is_space s @ [10]"
      using sp by simp
    show ?thesis unfolding trim_def a using sp by simp
  qed
qed

lemma matter_split:
  assumes "indexOf (u @ 10 # 45 # 45 # 45 # 10 # 10 # c) [10, 45, 45, 45] = Some (length u)"
    and "starts_with u [10]"
    and "fl_load lib [] u = Inr p"
  shows "matter lib (45 # 45 # 45 # u @ 10 # 45 # 45 # 45 # 10 # 10 # c) = Inr (p, 10 # c)"
proof -
  let ?str1 = "u @ 10 # 45 # 45 # 45 # 10 # 10 # c"
  obtain y where u: "u = 10 # y" using assms(2) by (cases u) auto
  have a: "stripBom (45 # 45 # 45 # ?str1) = 45 # 45 # 45 # ?str1"
    by (simp add: stripBom_def)
  have b: "starts_with (45 # 45 # 45 # ?str1) (asc ''---'')" by (simp add: asc_def)
  have c: "\<not> starts_with ?str1 (asc ''-'')" by (simp add: u asc_def)
  have d: "search_newline ?str1 = Some 0" by (simp add: u)
  have e: "take (length u) ?str1 = u" by simp
  have f: "drop (length u + 4) ?str1 = 10 # 10 # c" by simp
  have g: "length u \<noteq> length ?str1" by simp
  show ?thesis
    unfolding matter_def a
    by (simp add: b c d e f g assms(1,3) Let_def trim_Nil del: indexOf.simps)
       (simp add: asc_def assms(1,3) e f del: indexOf.simps)
qed

text \<open>
  What the repository's own code adds to a round trip. Let the trimmed YAML text of the
  metadata have no line that begins with \<open>---\<close>, and let the library's loader return \<open>p\<close>
  for that text (with the newline that precedes it). Then parsing the serialised document
  returns \<open>p\<close> as metadata and the trimmed body. Whether \<open>p\<close> is the metadata that was
  serialised is a matter of the YAML libraries and, for the date fields, of the \<open>Date\<close>
  runtime in the local time zone.
\<close>

lemma frontmatter_roundtrip_glue:
  assumes "\<not> includes_str (10 # trim (fl_stringify lib meta)) (10 # asc ''---'')"
    and "fl_load lib [] (10 # trim (fl_stringify lib meta)) = Inr p"
  shows "parseFrontmatter lib (serializeFrontmatter lib meta content)
    = Inr \<lparr> pr_meta = p, pr_content = trim content,
            pr_raw = serializeFrontmatter lib meta content \<rparr>"
proof -
  let ?y = "trim (fl_stringify lib meta)"
  let ?rest = "10 # 10 # content @ [10]"
  let ?doc = "asc ''---'' @ [10] @ ?y @ [10] @ asc ''---'' @ [10, 10] @ content @ [10]"
  have d: "serializeFrontmatter lib meta content = ?doc"
    by (simp add: serializeFrontmatter_def Let_def)
  have e: "?doc = 45 # 45 # 45 # (10 # ?y) @ 10 # 45 # 45 # 45 # ?rest"
    by (simp add: asc_def)
  have n: "\<not> includes_str (10 # ?y) [10, 45, 45, 45]"
    using assms(1) by (simp add: asc_def)
  have i: "indexOf ((10 # ?y) @ 10 # 45 # 45 # 45 # ?rest) [10, 45, 45, 45] = Some (length (10 # ?y))"
    using n by (rule indexOf_close)
  have m: "matter lib ?doc = Inr (p, 10 # content @ [10])"
    unfolding e using i assms(2) by (intro matter_split) simp_all
  show ?thesis
    unfolding d parseFrontmatter_def m by (simp add: trim_between_newlines)
qed

lemma validated_weekly:
  "validateWeeklyMeta dr pm = Inr m \<Longrightarrow> wm_week m \<noteq> [] \<and> wm_type m = asc ''weekly''"
  by (auto simp: validateWeeklyMeta_def falsy_string_def split: if_splits sum.splits option.splits)

text \<open>
  For a weekly report whose metadata passed validation: when the loader returns the
  stored week, type and project list, and the date fields it returns normalise to the
  stored date strings under the date runtime at hand, parsing the serialised report
  gives the report back, with its body trimmed.
\<close>

lemma weekly_roundtrip:
  assumes "validateWeeklyMeta dr0 pm0 = Inr (wr_meta w)"
    and "\<not> includes_str (10 # trim (fl_stringify lib (wr_meta w))) (10 # asc ''---'')"
    and "fl_load lib [] (10 # trim (fl_stringify lib (wr_meta w))) = Inr pm"
    and "pw_week pm = Some (wm_week (wr_meta w))"
    and "pw_type pm = Some (wm_type (wr_meta w))"
    and "pw_projects pm = Some (wm_projects (wr_meta w))"
    and "normalizeOptionalDate dr (pw_start_date pm) = Inr (wm_start_date (wr_meta w))"
    and "normalizeOptionalDate dr (pw_end_date pm) = Inr (wm_end_date (wr_meta w))"
  shows "parseWeekly lib dr (serializeWeekly lib w) (wr_filePath w)
    = Inr (w \<lparr> wr_content := trim (wr_content w) \<rparr>)"
proof -
  have v: "wm_week (wr_meta w) \<noteq> []" "wm_type (wr_meta w) = asc ''weekly''"
    using validated_weekly [OF assms(1)] by simp_all
  have "validateWeeklyMeta dr pm = Inr (wr_meta w)"
    using v assms(4-8)
    by (simp add: validateWeeklyMeta_def falsy_string_def or_default_def) (simp add: asc_def)
  then show ?thesis
    unfolding parseWeekly_def serializeWeekly_def
    by (simp add: frontmatter_roundtrip_glue [OF assms(2,3)])
qed

section \<open>A round trip west of UTC\<close>

lemma normalize_in_zones:
  "normalizeDate (zoned_dates 0) (DateString (asc ''2026-01-12'')) = Inr (asc ''2026-01-12'')"
  "normalizeDate (zoned_dates (- 300)) (DateString (asc ''2026-01-12'')) = Inr (asc ''2026-01-11'')"
  "normalizeDate (zoned_dates (- 300)) (DateString (asc ''2026-01-18'')) = Inr (asc ''2026-01-17'')"
  "normalizeDate (zoned_dates (- 300)) (DateString (asc ''2026-01-13'')) = Inr (asc ''2026-01-12'')"
  "normalizeDate (zoned_dates (- 300)) (DateString (asc ''2026-01-19'')) = Inr (asc ''2026-01-18'')"
  by code_simp+

lemma truthy_date_string: "truthy_date (Some (DateString (c # cs)))"
  by (simp add: truthy_date_def)

text \<open>
  C4 at a failing input. The local zone is five hours behind UTC. The weekly metadata
  with start date 2026-01-12 and end date 2026-01-18 passed validation there, and the
  library gives back the strings that were stored; yet parsing the serialised report
  returns the start date 2026-01-11 and the end date 2026-01-17: \<open>normalizeDate\<close> reads
  the date as midnight UTC and prints the local day, which is the day before. The body
  comes back unchanged.
\<close>

theorem roundtrip_west_of_utc:
  "validateWeeklyMeta (zoned_dates (- 300)) example_partial = Inr (wr_meta example_existing)
   \<and> parseWeekly three_line_lib (zoned_dates (- 300))
         (serializeWeekly three_line_lib example_existing) (wr_filePath example_existing)
       = Inr \<lparr> wr_meta = \<lparr> wm_week = asc ''2026-W03'', wm_type = asc ''weekly'',
                            wm_start_date = asc ''2026-01-11'', wm_end_date = asc ''2026-01-17'',
                            wm_projects = [] \<rparr>,
                wr_content = asc ''old body'',
                wr_filePath = asc ''ws/weekly/2026-W03.md'' \<rparr>
   \<and> wm_start_date (wr_meta example_existing) = asc ''2026-01-12''"
proof -
  have d: "normalizeOptionalDate (zoned_dates (- 300)) (Some (DateString (asc ''2026-01-12'')))
        = Inr (asc ''2026-01-11'')"
    "normalizeOptionalDate (zoned_dates (- 300)) (Some (DateString (asc ''2026-01-18'')))
        = Inr (asc ''2026-01-17'')"
    "normalizeOptionalDate (zoned_dates (- 300)) (Some (DateString (asc ''2026-01-13'')))
        = Inr (asc ''2026-01-12'')"
    "normalizeOptionalDate (zoned_dates (- 300)) (Some (DateString (asc ''2026-01-19'')))
        = Inr (asc ''2026-01-18'')"
    unfolding normalizeOptionalDate_def
    using normalize_in_zones by (simp_all add: truthy_date_def asc_def)
  have a: "validateWeeklyMeta (zoned_dates (- 300)) example_partial = Inr (wr_meta example_existing)"
    by (simp add: validateWeeklyMeta_def example_partial_def example_existing_def d
        falsy_string_def or_default_def)
       (simp add: asc_def)
  have s: "serializeWeekly three_line_lib example_existing
      = asc ''---'' @ [10] @ asc ''2026-W03'' @ [10] @ asc ''2026-01-12'' @ [10] @ asc ''2026-01-18''
        @ [10] @ asc ''---'' @ [10, 10] @ asc ''old body'' @ [10]"
    by (simp add: serializeWeekly_def serializeFrontmatter_def three_line_lib_def
        example_existing_def asc_def trim_def is_space_def)
  have m: "matter three_line_lib
      (asc ''---'' @ [10] @ asc ''2026-W03'' @ [10] @ asc ''2026-01-12'' @ [10] @ asc ''2026-01-18''
        @ [10] @ asc ''---'' @ [10, 10] @ asc ''old body'' @ [10])
     = Inr (\<lparr> pw_week = Some (asc ''2026-W03''), pw_type = Some (asc ''weekly''),
             pw_start_date = Some (DateString (asc ''2026-01-12'')),
             pw_end_date = Some (DateString (asc ''2026-01-18'')),
             pw_projects = None \<rparr>, 10 # asc ''old body'' @ [10])"
    by (simp add: matter_def stripBom_def three_line_lib_def Let_def asc_def trim_def is_space_def)
  have b: "parseWeekly three_line_lib (zoned_dates (- 300))
         (serializeWeekly three_line_lib example_existing) (wr_filePath example_existing)
       = Inr \<lparr> wr_meta = \<lparr> wm_week = asc ''2026-W03'', wm_type = asc ''weekly'',
                            wm_start_date = asc ''2026-01-11'', wm_end_date = asc ''2026-01-17'',
                            wm_projects = [] \<rparr>,
                wr_content = asc ''old body'',
                wr_filePath = asc ''ws/weekly/2026-W03.md'' \<rparr>"
    unfolding s parseWeekly_def parseFrontmatter_def m
    by (simp add: validateWeeklyMeta_def d falsy_string_def or_default_def example_existing_def)
       (simp add: asc_def trim_def is_space_def)
  show ?thesis using a b by (simp add: example_existing_def)
qed

section \<open>Regenerating a weekly report west of UTC\<close>

lemma stored_weekly:
  "serializeWeekly three_line_lib example_existing
     = asc ''---'' @ [10] @ asc ''2026-W03'' @ [10] @ asc ''2026-01-12'' @ [10] @ asc ''2026-01-18''
        @ [10] @ asc ''---'' @ [10, 10] @ asc ''old body'' @ [10]"
  by (simp add: serializeWeekly_def serializeFrontmatter_def three_line_lib_def
      example_existing_def asc_def trim_def is_space_def)

lemma west_getWeekly:
  "getWeekly west_env west_files (asc ''ws'') (asc ''2026-W03'')
     = Inr (Some \<lparr> wr_meta = \<lparr> wm_week = asc ''2026-W03'', wm_type = asc ''weekly'',
                               wm_start_date = asc ''2026-01-11'', wm_end_date = asc ''2026-01-17'',
                               wm_projects = [] \<rparr>,
                   wr_content = asc ''old body'',
                   wr_filePath = asc ''ws/weekly/2026-W03.md'' \<rparr>)"
proof -
  have d: "normalizeOptionalDate (zoned_dates (- 300)) (Some (DateString (asc ''2026-01-12'')))
        = Inr (asc ''2026-01-11'')"
    "normalizeOptionalDate (zoned_dates (- 300)) (Some (DateString (asc ''2026-01-18'')))
        = Inr (asc ''2026-01-17'')"
    unfolding normalizeOptionalDate_def
    using normalize_in_zones by (simp_all add: truthy_date_def asc_def)
  have m: "matter three_line_lib
      (asc ''---'' @ [10] @ asc ''2026-W03'' @ [10] @ asc ''2026-01-12'' @ [10] @ asc ''2026-01-18''
        @ [10] @ asc ''---'' @ [10, 10] @ asc ''old body'' @ [10])
     = Inr (\<lparr> pw_week = Some (asc ''2026-W03''), pw_type = Some (asc ''weekly''),
             pw_start_date = Some (DateString (asc ''2026-01-12'')),
             pw_end_date = Some (DateString (asc ''2026-01-18'')),
             pw_projects = None \<rparr>, 10 # asc ''old body'' @ [10])"
    by (simp add: matter_def stripBom_def three_line_lib_def Let_def asc_def trim_def is_space_def)
  have p: "getWeeklyFilePath west_env (asc ''ws'') (asc ''2026-W03'') = asc ''ws/weekly/2026-W03.md''"
    by (simp add: west_env_def example_env_def asc_def)
  have l: "we_lib west_env = three_line_lib" "we_dates west_env = zoned_dates (- 300)"
    by (simp_all add: west_env_def)
  have f: "west_files (asc ''ws/weekly/2026-W03.md'') = Some (serializeWeekly three_line_lib example_existing)"
    by (simp add: west_files_def)
  have b: "parseWeekly three_line_lib (zoned_dates (- 300))
         (serializeWeekly three_line_lib example_existing) (asc ''ws/weekly/2026-W03.md'')
       = Inr \<lparr> wr_meta = \<lparr> wm_week = asc ''2026-W03'', wm_type = asc ''weekly'',
                            wm_start_date = asc ''2026-01-11'', wm_end_date = asc ''2026-01-17'',
                            wm_projects = [] \<rparr>,
                wr_content = asc ''old body'',
                wr_filePath = asc ''ws/weekly/2026-W03.md'' \<rparr>"
    unfolding stored_weekly parseWeekly_def parseFrontmatter_def m
    by (simp add: validateWeeklyMeta_def d falsy_string_def or_default_def)
       (simp add: asc_def trim_def is_space_def)
  show ?thesis
    unfolding getWeekly_def Let_def p f l by (simp add: b)
qed

lemma west_aggregate:
  "aggregateFromDailies west_env west_files (asc ''ws'') (asc ''2026-W03'')
     = Inr (aggregateDailiesToWeekly basic_runtime [daily_12] week_03)"
  by (simp add: aggregateFromDailies_def west_env_def example_env_def createDefaultWeeklyMeta_def
      week_03_def)

lemma no_projects_12:
  "wa_projects (aggregateDailiesToWeekly basic_runtime [daily_12] week_03) = []"
  by (simp add: aggregateDailiesToWeekly_def aggregateSorted_def array_sort_def collectProjects_def
      daily_12_def Let_def)

text \<open>
  C9 at a failing input. The local zone is five hours behind UTC and the YAML library
  gives back the strings that were stored. The file of week 2026-W03 is the
  serialisation of a report with start date 2026-01-12 and end date 2026-01-18.
  Regenerating the week succeeds, and both the report returned and the file written
  carry the start date 2026-01-11 and the end date 2026-01-17, with week, type and path
  as stored: the metadata comes from \<open>getWeekly\<close>, whose parser passes the two dates
  through \<open>normalizeDate\<close>.
\<close>

theorem generateWeekly_west_of_utc:
  "west_files (asc ''ws/weekly/2026-W03.md'')
     = Some (asc ''---'' @ [10] @ asc ''2026-W03'' @ [10] @ asc ''2026-01-12'' @ [10]
         @ asc ''2026-01-18'' @ [10] @ asc ''---'' @ [10, 10] @ asc ''old body'' @ [10])
   \<and> generateWeekly west_env west_files (asc ''ws'') (Some (asc ''2026-W03''))
     = (west_files (asc ''ws/weekly/2026-W03.md'' \<mapsto>
          asc ''---'' @ [10] @ asc ''2026-W03'' @ [10] @ asc ''2026-01-11'' @ [10]
            @ asc ''2026-01-17'' @ [10] @ asc ''---'' @ [10, 10]
            @ mergeWeeklyContent basic_runtime (asc ''old body'')
                (aggregateDailiesToWeekly basic_runtime [daily_12] week_03) @ [10]),
        Inr \<lparr> wr_meta = \<lparr> wm_week = asc ''2026-W03'', wm_type = asc ''weekly'',
                           wm_start_date = asc ''2026-01-11'', wm_end_date = asc ''2026-01-17'',
                           wm_projects = [] \<rparr>,
               wr_content = mergeWeeklyContent basic_runtime (asc ''old body'')
                 (aggregateDailiesToWeekly basic_runtime [daily_12] week_03),
               wr_filePath = asc ''ws/weekly/2026-W03.md'' \<rparr>)"
proof -
  have a: "asc ''2026-W03'' \<noteq> []" by (simp add: asc_def)
  have f: "west_files (asc ''ws/weekly/2026-W03.md'')
     = Some (asc ''---'' @ [10] @ asc ''2026-W03'' @ [10] @ asc ''2026-01-12'' @ [10]
         @ asc ''2026-01-18'' @ [10] @ asc ''---'' @ [10, 10] @ asc ''old body'' @ [10])"
    unfolding west_files_def stored_weekly by simp
  have p: "getWeeklyFilePath west_env (asc ''ws'') (asc ''2026-W03'') = asc ''ws/weekly/2026-W03.md''"
    by (simp add: west_env_def example_env_def asc_def)
  have l: "we_lib west_env = three_line_lib" "we_runtime west_env = basic_runtime"
    by (simp_all add: west_env_def example_env_def)
  have t: "trim (asc ''2026-W03'' @ 10 # asc ''2026-01-11'' @ 10 # asc ''2026-01-17'')
      = asc ''2026-W03'' @ 10 # asc ''2026-01-11'' @ 10 # asc ''2026-01-17''"
    by (simp add: asc_def trim_def is_space_def)
  have g: "generateWeekly west_env west_files (asc ''ws'') (Some (asc ''2026-W03''))
     = (west_files (asc ''ws/weekly/2026-W03.md'' \<mapsto>
          asc ''---'' @ [10] @ asc ''2026-W03'' @ [10] @ asc ''2026-01-11'' @ [10]
            @ asc ''2026-01-17'' @ [10] @ asc ''---'' @ [10, 10]
            @ mergeWeeklyContent basic_runtime (asc ''old body'')
                (aggregateDailiesToWeekly basic_runtime [daily_12] week_03) @ [10]),
        Inr \<lparr> wr_meta = \<lparr> wm_week = asc ''2026-W03'', wm_type = asc ''weekly'',
                           wm_start_date = asc ''2026-01-11'', wm_end_date = asc ''2026-01-17'',
                           wm_projects = [] \<rparr>,
               wr_content = mergeWeeklyContent basic_runtime (asc ''old body'')
                 (aggregateDailiesToWeekly basic_runtime [daily_12] week_03),
               wr_filePath = asc ''ws/weekly/2026-W03.md'' \<rparr>)"
    using generateWeekly_keeps_metadata [OF a west_getWeekly west_aggregate]
    by (simp add: p l no_projects_12 serializeWeekly_def serializeFrontmatter_def three_line_lib_def t)
  show ?thesis using f g by simp
qed

end
